theory Spec2Isabelle
  imports Main "HOL-Library.Word"
begin

unbundle bit_operations_syntax

section \<open>appdb: an application fingerprint in the user_version register of a SQLite file\<close>

text \<open>
  A shallow embedding of the Go package \<^verbatim>\<open>appdb\<close> (file \<^verbatim>\<open>appdb.go\<close>). The
  repository holds a second copy of the file that logs each call with \<^verbatim>\<open>log.Println\<close>,
  names \<^verbatim>\<open>validateDB\<close> \<^verbatim>\<open>validateDb\<close> and passes two unused arguments to
  \<^verbatim>\<open>openAppDBNoValidate\<close>; it is the same program otherwise, and the model is of both.
  Go's \<^verbatim>\<open>uint8\<close> and \<^verbatim>\<open>uint32\<close> are 8 and 32 bit words, a Go \<^verbatim>\<open>string\<close> is a
  sequence of bytes (\<^typ>\<open>string\<close>, one \<^typ>\<open>char\<close> per byte), a slice is a list.
  The package calls three collaborators whose code is not part of it: the operating
  system (\<^verbatim>\<open>os\<close>, \<^verbatim>\<open>path/filepath\<close>), the \<^verbatim>\<open>database/sql\<close> engine with its
  SQLite driver, and \<^verbatim>\<open>crypto/sha256\<close>. The first two are parameters of the model
  (a record of operations over a world of any type); SHA-256 is written out, so that
  a fingerprint can be computed for a concrete application name.
\<close>

type_synonym u8 = "8 word"
type_synonym u32 = "32 word"

subsection \<open>crypto/sha256 (Go standard library): SHA-256 as in FIPS 180-4\<close>

definition rotr :: "nat \<Rightarrow> u32 \<Rightarrow> u32" where
  "rotr n x = drop_bit n x OR push_bit (32 - n) x"

text \<open>The round constants, eight to a row (rounds 0 to 7, 8 to 15, and so on).\<close>

definition K256 :: "u32 list" where
  "K256 = concat
     [
      [0x428a2f98, 0x71374491, 0xb5c0fbcf, 0xe9b5dba5, 0x3956c25b, 0x59f111f1, 0x923f82a4, 0xab1c5ed5],
      [0xd807aa98, 0x12835b01, 0x243185be, 0x550c7dc3, 0x72be5d74, 0x80deb1fe, 0x9bdc06a7, 0xc19bf174],
      [0xe49b69c1, 0xefbe4786, 0x0fc19dc6, 0x240ca1cc, 0x2de92c6f, 0x4a7484aa, 0x5cb0a9dc, 0x76f988da],
      [0x983e5152, 0xa831c66d, 0xb00327c8, 0xbf597fc7, 0xc6e00bf3, 0xd5a79147, 0x06ca6351, 0x14292967],
      [0x27b70a85, 0x2e1b2138, 0x4d2c6dfc, 0x53380d13, 0x650a7354, 0x766a0abb, 0x81c2c92e, 0x92722c85],
      [0xa2bfe8a1, 0xa81a664b, 0xc24b8b70, 0xc76c51a3, 0xd192e819, 0xd6990624, 0xf40e3585, 0x106aa070],
      [0x19a4c116, 0x1e376c08, 0x2748774c, 0x34b0bcb5, 0x391c0cb3, 0x4ed8aa4a, 0x5b9cca4f, 0x682e6ff3],
      [0x748f82ee, 0x78a5636f, 0x84c87814, 0x8cc70208, 0x90befffa, 0xa4506ceb, 0xbef9a3f7, 0xc67178f2]
     ]"

type_synonym st256 = "u32 \<times> u32 \<times> u32 \<times> u32 \<times> u32 \<times> u32 \<times> u32 \<times> u32"

definition init256 :: st256 where
  "init256 =
    (0x6a09e667, 0xbb67ae85, 0x3c6ef372, 0xa54ff53a, 0x510e527f, 0x9b05688c, 0x1f83d9ab, 0x5be0cd19)"

text \<open>Padding: the byte 0x80, zeros up to 56 modulo 64, the bit length in 8 bytes, big end first.\<close>

definition pad256 :: "u8 list \<Rightarrow> u8 list" where
  "pad256 m =
     (let n = (of_nat (8 * length m) :: 64 word) in
      m @ [0x80] @ replicate ((119 - length m mod 64) mod 64) 0 @
      map (\<lambda>i. ucast (drop_bit (8 * (7 - i)) n)) [0..<8])"

fun be_words :: "u8 list \<Rightarrow> u32 list" where
  "be_words (a # b # c # d # r) =
     (push_bit 24 (ucast a) OR push_bit 16 (ucast b) OR push_bit 8 (ucast c) OR ucast d) # be_words r"
| "be_words _ = []"

text \<open>The message schedule: \<open>w\<close> holds the last sixteen words, the next one is appended.\<close>

fun schedule :: "nat \<Rightarrow> u32 list \<Rightarrow> u32 list" where
  "schedule 0 w = []"
| "schedule (Suc n) w =
     (let x = (rotr 17 (w ! 14) XOR rotr 19 (w ! 14) XOR drop_bit 10 (w ! 14)) + w ! 9
            + (rotr 7 (w ! 1) XOR rotr 18 (w ! 1) XOR drop_bit 3 (w ! 1)) + w ! 0
      in x # schedule n (tl w @ [x]))"

definition round256 :: "st256 \<Rightarrow> u32 \<times> u32 \<Rightarrow> st256" where
  "round256 s kw =
     (case s of (a, b, c, d, e, f, g, h) \<Rightarrow> (case kw of (k, w) \<Rightarrow>
       (let t1 = h + (rotr 6 e XOR rotr 11 e XOR rotr 25 e) + ((e AND f) XOR (NOT e AND g)) + k + w;
            t2 = (rotr 2 a XOR rotr 13 a XOR rotr 22 a) + ((a AND b) XOR (a AND c) XOR (b AND c))
        in (t1 + t2, a, b, c, d + t1, e, f, g))))"

definition add256 :: "st256 \<Rightarrow> st256 \<Rightarrow> st256" where
  "add256 s t =
     (case s of (a, b, c, d, e, f, g, h) \<Rightarrow> (case t of (a', b', c', d', e', f', g', h') \<Rightarrow>
       (a + a', b + b', c + c', d + d', e + e', f + f', g + g', h + h')))"

definition block256 :: "st256 \<Rightarrow> u8 list \<Rightarrow> st256" where
  "block256 h p =
     (let w = be_words p in add256 h (foldl round256 h (zip K256 (w @ schedule 48 w))))"

fun blocks256 :: "nat \<Rightarrow> st256 \<Rightarrow> u8 list \<Rightarrow> st256" where
  "blocks256 0 h p = h"
| "blocks256 (Suc n) h p = blocks256 n (block256 h (take 64 p)) (drop 64 p)"

definition be32 :: "u32 \<Rightarrow> u8 list" where
  "be32 x = [ucast (drop_bit 24 x), ucast (drop_bit 16 x), ucast (drop_bit 8 x), ucast x]"

text \<open>\<^verbatim>\<open>sha256.Sum256\<close>: the digest, 32 bytes (Go's \<^verbatim>\<open>[32]byte\<close>).\<close>

definition Sum256 :: "u8 list \<Rightarrow> u8 list" where
  "Sum256 m =
     (let p = pad256 m in
      (case blocks256 (length p div 64) init256 p of (a, b, c, d, e, f, g, h) \<Rightarrow>
        be32 a @ be32 b @ be32 c @ be32 d @ be32 e @ be32 f @ be32 g @ be32 h))"

subsection \<open>encoding/binary and fmt (Go standard library)\<close>

text \<open>
  \<^verbatim>\<open>binary.LittleEndian.Uint32(b)\<close> is
  \<^verbatim>\<open>uint32(b[0]) | uint32(b[1])<<8 | uint32(b[2])<<16 | uint32(b[3])<<24\<close>.
  It panics on a slice shorter than four bytes; the package calls it on a literal of
  four bytes only.
\<close>

definition LittleEndian_Uint32 :: "u8 list \<Rightarrow> u32" where
  "LittleEndian_Uint32 b =
     ucast (b ! 0) OR push_bit 8 (ucast (b ! 1)) OR push_bit 16 (ucast (b ! 2))
       OR push_bit 24 (ucast (b ! 3))"

text \<open>The verb \<^verbatim>\<open>%d\<close> on an unsigned integer: decimal digits, no sign, no leading zero.\<close>

fun decimal :: "nat \<Rightarrow> string" where
  "decimal n =
     (if n < 10 then [''0123456789'' ! n]
      else decimal (n div 10) @ [''0123456789'' ! (n mod 10)])"

declare decimal.simps [simp del]

subsection \<open>The fingerprint\<close>

text \<open>\<^verbatim>\<open>[]byte(appName)\<close>: the bytes of the string.\<close>

definition bytes :: "string \<Rightarrow> u8 list" where
  "bytes appName = map of_char appName"

definition getUserVersion :: "string \<Rightarrow> u8 \<Rightarrow> u32" where
  "getUserVersion appName schemaVersion =
     (let sum = Sum256 (bytes appName);
          s = [sum ! 0, sum ! 1, sum ! 2, schemaVersion];
          uv = LittleEndian_Uint32 s
      in uv)"

subsection \<open>Errors, handles and the collaborators\<close>

text \<open>
  A Go \<^verbatim>\<open>error\<close> value. The first four stand for what the collaborators return:
  \<open>ErrNotExist\<close> for every error on which \<^verbatim>\<open>os.IsNotExist\<close> holds, \<open>ErrInvalid\<close> for
  \<^verbatim>\<open>os.ErrInvalid\<close>, \<open>SysError\<close> for any other error of the operating system and
  \<open>DriverError\<close> for an error of the engine, each with a code. The next three are the
  package's own structs \<^verbatim>\<open>AppIdError{Id, ExpectedId}\<close>,
  \<^verbatim>\<open>SchemaVersionError{Version, ExpectedVersion}\<close> and \<^verbatim>\<open>SchemaError{Statement, Err}\<close>.
  \<open>NilDereference\<close> is the run-time panic of a method call on a nil \<^verbatim>\<open>*sql.DB\<close>.
\<close>

datatype go_error =
    ErrNotExist
  | ErrInvalid
  | SysError nat
  | DriverError nat
  | AppIdError u32 u32
  | SchemaVersionError u8 u8
  | SchemaError string go_error
  | NilDereference

text \<open>
  \<^verbatim>\<open>*sql.DB\<close> and \<^verbatim>\<open>*sql.Stmt\<close>: the identity of the object, and what the object
  holds (the data source name; the database and the query text).
\<close>

datatype db = DB (db_id: nat) (db_dsn: string)

datatype stmt = Stmt (stmt_id: nat) (stmt_db: db) (stmt_query: string)

text \<open>What \<^verbatim>\<open>filestat.Mode()\<close> says of an existing path.\<close>

datatype file_kind = Regular | Directory | Irregular

definition IsRegular :: "file_kind \<Rightarrow> bool" where
  "IsRegular k = (k = Regular)"

definition IsNotExist :: "go_error option \<Rightarrow> bool" where
  "IsNotExist err = (err = Some ErrNotExist)"

text \<open>
  The collaborators, over a world \<open>'w\<close> (the file system and the database files).
  Every operation returns its result and the world it leaves. An operation that
  returns a new object returns its identity. \<open>row_Scan\<close> is
  \<^verbatim>\<open>db.QueryRow(query).Scan(&v)\<close> for a \<^verbatim>\<open>uint32\<close> destination.
\<close>

record 'w env =
  filepath_Dir :: "string \<Rightarrow> string"
  os_Stat :: "string \<Rightarrow> 'w \<Rightarrow> (go_error + file_kind) \<times> 'w"
  os_MkdirAll :: "string \<Rightarrow> u32 \<Rightarrow> 'w \<Rightarrow> go_error option \<times> 'w"
  os_Create :: "string \<Rightarrow> 'w \<Rightarrow> (go_error + nat) \<times> 'w"
  file_Close :: "nat \<Rightarrow> 'w \<Rightarrow> go_error option \<times> 'w"
  sql_Open :: "string \<Rightarrow> string \<Rightarrow> 'w \<Rightarrow> (go_error + nat) \<times> 'w"
  db_Close :: "db \<Rightarrow> 'w \<Rightarrow> go_error option \<times> 'w"
  db_Prepare :: "db \<Rightarrow> string \<Rightarrow> 'w \<Rightarrow> (go_error + nat) \<times> 'w"
  stmt_Exec :: "stmt \<Rightarrow> string list \<Rightarrow> 'w \<Rightarrow> go_error option \<times> 'w"
  stmt_Close :: "stmt \<Rightarrow> 'w \<Rightarrow> go_error option \<times> 'w"
  row_Scan :: "db \<Rightarrow> string \<Rightarrow> 'w \<Rightarrow> (go_error + u32) \<times> 'w"

text \<open>
  A run threads the world and the trace of the calls made so far: each call to a
  collaborator with the error it returned (\<open>None\<close> for nil).
\<close>

datatype call =
    Stat string
  | MkdirAll string u32
  | Create string
  | FileClose nat
  | SqlOpen string string
  | DbClose db
  | Prepare db string
  | Exec stmt "string list"
  | StmtClose stmt
  | QueryRowScan db string

type_synonym event = "call \<times> go_error option"

record 'w run =
  world :: 'w
  trace :: "event list"

definition err_of :: "go_error + 'a \<Rightarrow> go_error option" where
  "err_of r = (case r of Inl e \<Rightarrow> Some e | Inr _ \<Rightarrow> None)"

definition step :: "call \<Rightarrow> go_error option \<Rightarrow> 'w \<Rightarrow> 'w run \<Rightarrow> 'w run" where
  "step c e w s = \<lparr>world = w, trace = trace s @ [(c, e)]\<rparr>"

definition call_Stat :: "'w env \<Rightarrow> string \<Rightarrow> 'w run \<Rightarrow> (go_error + file_kind) \<times> 'w run" where
  "call_Stat E p s = (case os_Stat E p (world s) of (r, w) \<Rightarrow> (r, step (Stat p) (err_of r) w s))"

definition call_MkdirAll :: "'w env \<Rightarrow> string \<Rightarrow> u32 \<Rightarrow> 'w run \<Rightarrow> go_error option \<times> 'w run" where
  "call_MkdirAll E p m s =
     (case os_MkdirAll E p m (world s) of (r, w) \<Rightarrow> (r, step (MkdirAll p m) r w s))"

definition call_Create :: "'w env \<Rightarrow> string \<Rightarrow> 'w run \<Rightarrow> (go_error + nat) \<times> 'w run" where
  "call_Create E p s =
     (case os_Create E p (world s) of (r, w) \<Rightarrow> (r, step (Create p) (err_of r) w s))"

definition call_FileClose :: "'w env \<Rightarrow> nat \<Rightarrow> 'w run \<Rightarrow> go_error option \<times> 'w run" where
  "call_FileClose E fh s =
     (case file_Close E fh (world s) of (r, w) \<Rightarrow> (r, step (FileClose fh) r w s))"

definition call_SqlOpen :: "'w env \<Rightarrow> string \<Rightarrow> string \<Rightarrow> 'w run \<Rightarrow> (go_error + db) \<times> 'w run" where
  "call_SqlOpen E driver dsn s =
     (case sql_Open E driver dsn (world s) of
        (Inl e, w) \<Rightarrow> (Inl e, step (SqlOpen driver dsn) (Some e) w s)
      | (Inr i, w) \<Rightarrow> (Inr (DB i dsn), step (SqlOpen driver dsn) None w s))"

definition call_DbClose :: "'w env \<Rightarrow> db \<Rightarrow> 'w run \<Rightarrow> go_error option \<times> 'w run" where
  "call_DbClose E d s =
     (case db_Close E d (world s) of (r, w) \<Rightarrow> (r, step (DbClose d) r w s))"

definition call_Prepare :: "'w env \<Rightarrow> db \<Rightarrow> string \<Rightarrow> 'w run \<Rightarrow> (go_error + stmt) \<times> 'w run" where
  "call_Prepare E d q s =
     (case db_Prepare E d q (world s) of
        (Inl e, w) \<Rightarrow> (Inl e, step (Prepare d q) (Some e) w s)
      | (Inr i, w) \<Rightarrow> (Inr (Stmt i d q), step (Prepare d q) None w s))"

definition call_Exec :: "'w env \<Rightarrow> stmt \<Rightarrow> string list \<Rightarrow> 'w run \<Rightarrow> go_error option \<times> 'w run" where
  "call_Exec E st args s =
     (case stmt_Exec E st args (world s) of (r, w) \<Rightarrow> (r, step (Exec st args) r w s))"

definition call_StmtClose :: "'w env \<Rightarrow> stmt \<Rightarrow> 'w run \<Rightarrow> go_error option \<times> 'w run" where
  "call_StmtClose E st s =
     (case stmt_Close E st (world s) of (r, w) \<Rightarrow> (r, step (StmtClose st) r w s))"

definition call_QueryRowScan :: "'w env \<Rightarrow> db \<Rightarrow> string \<Rightarrow> 'w run \<Rightarrow> (go_error + u32) \<times> 'w run" where
  "call_QueryRowScan E d q s =
     (case row_Scan E d q (world s) of (r, w) \<Rightarrow> (r, step (QueryRowScan d q) (err_of r) w s))"

subsection \<open>The package\<close>

text \<open>
  The functions that open a database return Go's pair \<^verbatim>\<open>(*sql.DB, error)\<close>: the handle
  (\<open>None\<close> for nil) and the error (\<open>None\<close> for nil), with the run they leave.
\<close>

type_synonym 'w opened = "(db option \<times> go_error option) \<times> 'w run"

definition openAppDBNoValidate :: "'w env \<Rightarrow> string \<Rightarrow> 'w run \<Rightarrow> 'w opened" where
  "openAppDBNoValidate E dbPath s =
     (case call_Stat E dbPath s of
        (Inl err, s1) \<Rightarrow> ((None, Some err), s1)
      | (Inr filestat, s1) \<Rightarrow>
          (if IsRegular filestat then
             (case call_SqlOpen E ''sqlite3'' dbPath s1 of
                (Inl err, s2) \<Rightarrow> ((None, Some err), s2)
              | (Inr d, s2) \<Rightarrow> ((Some d, None), s2))
           else ((None, Some ErrInvalid), s1)))"

definition validateDB :: "'w env \<Rightarrow> db \<Rightarrow> string \<Rightarrow> u8 \<Rightarrow> 'w run \<Rightarrow> go_error option \<times> 'w run" where
  "validateDB E d appName schemaVersion s =
     (let uv = getUserVersion appName schemaVersion in
      (case call_QueryRowScan E d ''PRAGMA user_version'' s of
         (Inl err, s1) \<Rightarrow> (Some err, s1)
       | (Inr user_version, s1) \<Rightarrow>
           (if uv \<noteq> user_version then
              (let dbAppId = user_version AND 0x00ffffff;
                   expectedId = uv AND 0x00ffffff;
                   dbSchemaVers = (ucast (drop_bit 24 user_version) :: u8);
                   expectedSchemaVers = (ucast (drop_bit 24 uv) :: u8)
               in if dbAppId \<noteq> expectedId then (Some (AppIdError dbAppId expectedId), s1)
                  else if dbSchemaVers \<noteq> expectedSchemaVers
                  then (Some (SchemaVersionError dbSchemaVers expectedSchemaVers), s1)
                  else (None, s1))
            else (None, s1))))"

definition OpenAppDB :: "'w env \<Rightarrow> string \<Rightarrow> string \<Rightarrow> u8 \<Rightarrow> 'w run \<Rightarrow> 'w opened" where
  "OpenAppDB E dbPath appName schemaVersion s =
     (case openAppDBNoValidate E dbPath s of
        ((_, Some err), s1) \<Rightarrow> ((None, Some err), s1)
      | ((None, None), s1) \<Rightarrow> ((None, Some NilDereference), s1)
      | ((Some d, None), s1) \<Rightarrow>
          (case validateDB E d appName schemaVersion s1 of
             (Some err, s2) \<Rightarrow> (case call_DbClose E d s2 of (_, s3) \<Rightarrow> ((None, Some err), s3))
           | (None, s2) \<Rightarrow> ((Some d, None), s2)))"

text \<open>The deferred \<^verbatim>\<open>stmt.Close()\<close> runs on each return after a successful Prepare.\<close>

definition ExecSqlStatement :: "'w env \<Rightarrow> db \<Rightarrow> string \<Rightarrow> 'w run \<Rightarrow> go_error option \<times> 'w run" where
  "ExecSqlStatement E d sql s =
     (case call_Prepare E d sql s of
        (Inl err, s1) \<Rightarrow> (Some err, s1)
      | (Inr st, s1) \<Rightarrow>
          (case call_Exec E st [] s1 of
             (Some err, s2) \<Rightarrow> (case call_StmtClose E st s2 of (_, s3) \<Rightarrow> (Some err, s3))
           | (None, s2) \<Rightarrow> (case call_StmtClose E st s2 of (_, s3) \<Rightarrow> (None, s3))))"

text \<open>The loop \<^verbatim>\<open>for v := range values\<close> of \<^verbatim>\<open>ExecBulkSql\<close>, from index \<open>v\<close> on.\<close>

fun bulk_loop :: "'w env \<Rightarrow> stmt \<Rightarrow> string list \<Rightarrow> 'w run \<Rightarrow> go_error option \<times> 'w run" where
  "bulk_loop E st [] s = (None, s)"
| "bulk_loop E st (v # vs) s =
     (case call_Exec E st [v] s of
        (Some err, s1) \<Rightarrow> (Some err, s1)
      | (None, s1) \<Rightarrow> bulk_loop E st vs s1)"

definition ExecBulkSql :: "'w env \<Rightarrow> db \<Rightarrow> string \<Rightarrow> string list \<Rightarrow> 'w run \<Rightarrow> go_error option \<times> 'w run" where
  "ExecBulkSql E d sql values s =
     (case call_Prepare E d sql s of
        (Inl err, s1) \<Rightarrow> (Some err, s1)
      | (Inr st, s1) \<Rightarrow>
          (case bulk_loop E st values s1 of
             (r, s2) \<Rightarrow> (case call_StmtClose E st s2 of (_, s3) \<Rightarrow> (r, s3))))"

text \<open>\<^verbatim>\<open>fmt.Sprintf("PRAGMA user_version = %d ;", uv)\<close>\<close>

definition Sprintf_user_version :: "u32 \<Rightarrow> string" where
  "Sprintf_user_version uv = ''PRAGMA user_version = '' @ decimal (unat uv) @ '' ;''"

text \<open>The statements \<open>s\<close> that \<^verbatim>\<open>initSchema\<close> builds, and its loop \<^verbatim>\<open>for v := range s\<close>.\<close>

definition schema_statements :: "string \<Rightarrow> u8 \<Rightarrow> string list \<Rightarrow> string list" where
  "schema_statements appName schemaVersion schema =
     ([] @ [Sprintf_user_version (getUserVersion appName schemaVersion),
            ''PRAGMA foreign_keys = ON;'']) @ schema"

fun schema_loop :: "'w env \<Rightarrow> db \<Rightarrow> string list \<Rightarrow> 'w run \<Rightarrow> go_error option \<times> 'w run" where
  "schema_loop E d [] s = (None, s)"
| "schema_loop E d (q # qs) s =
     (case ExecSqlStatement E d q s of
        (Some err, s1) \<Rightarrow> (Some (SchemaError q err), s1)
      | (None, s1) \<Rightarrow> schema_loop E d qs s1)"

definition initSchema :: "'w env \<Rightarrow> db \<Rightarrow> string \<Rightarrow> u8 \<Rightarrow> string list \<Rightarrow> 'w run \<Rightarrow> go_error option \<times> 'w run" where
  "initSchema E d appName schemaVersion schema s =
     schema_loop E d (schema_statements appName schemaVersion schema) s"

text \<open>\<^verbatim>\<open>os.ModeDir|0700\<close>: bit 31 and the permission bits of the owner.\<close>

definition ModeDir_0700 :: u32 where
  "ModeDir_0700 = push_bit 31 1 OR 448"

text \<open>
  \<^verbatim>\<open>InitAppDB\<close> calls \<^verbatim>\<open>initSchema\<close> as a statement: the error it returns is not
  assigned, and the function goes on to \<^verbatim>\<open>return db, nil\<close>.
\<close>

definition InitAppDB :: "'w env \<Rightarrow> string \<Rightarrow> string \<Rightarrow> u8 \<Rightarrow> string list \<Rightarrow> 'w run \<Rightarrow> 'w opened" where
  "InitAppDB E dbPath appName schemaVersion schema s =
     (case call_Stat E dbPath s of
        (r, s1) \<Rightarrow>
          (if IsNotExist (err_of r) then
             (case call_MkdirAll E (filepath_Dir E dbPath) ModeDir_0700 s1 of
                (Some err, s2) \<Rightarrow> ((None, Some err), s2)
              | (None, s2) \<Rightarrow>
                  (case call_Create E dbPath s2 of
                     (Inl err, s3) \<Rightarrow> ((None, Some err), s3)
                   | (Inr fh, s3) \<Rightarrow>
                       (case call_FileClose E fh s3 of
                          (_, s4) \<Rightarrow>
                            (case openAppDBNoValidate E dbPath s4 of
                               ((_, Some err), s5) \<Rightarrow> ((None, Some err), s5)
                             | ((None, None), s5) \<Rightarrow> ((None, Some NilDereference), s5)
                             | ((Some d, None), s5) \<Rightarrow>
                                 (case initSchema E d appName schemaVersion schema s5 of
                                    (_, s6) \<Rightarrow> ((Some d, None), s6))))))
           else
             (case OpenAppDB E dbPath appName schemaVersion s1 of
                ((_, Some err), s2) \<Rightarrow> ((None, Some err), s2)
              | ((d, None), s2) \<Rightarrow> ((d, None), s2))))"

subsection \<open>A reference environment\<close>

text \<open>
  A small file system and engine, to run the package on concrete inputs. A path is
  absent, a directory, a regular file or something else; a database file holds its
  user_version register and the values inserted so far. The register is SQLite's: a
  signed integer of 32 bits, held here as its 32 bits. The engine accepts
  \<^verbatim>\<open>PRAGMA user_version = N ;\<close> for a decimal integer \<open>N\<close> with an optional minus
  sign, the foreign-keys pragma, \<^verbatim>\<open>CREATE\<close> and \<^verbatim>\<open>INSERT\<close> statements, and rejects any
  other text with an error at Prepare (SQLite reads more forms of \<open>N\<close>); an
  \<^verbatim>\<open>INSERT\<close> of a value already present fails at Exec. As in SQLite, an \<open>N\<close> outside
  the range of the register, above 2147483647 or below -2147483648, stores 0. A scan
  of the register into a \<^verbatim>\<open>uint32\<close> fails when the register is negative, that is when
  its bit 31 is set: \<^verbatim>\<open>database/sql\<close> converts no negative integer to an unsigned
  destination. The error codes are 0 for an unknown driver, 1 for a text the engine
  does not accept, 2 for the failed conversion of a scan, 5 for a locked database and
  19 for a violated constraint.
\<close>

record sim =
  files :: "string \<Rightarrow> file_kind option"
  registers :: "string \<Rightarrow> u32"
  rows :: "string \<Rightarrow> string list"
  next_id :: nat

fun digits_value :: "nat \<Rightarrow> string \<Rightarrow> nat option" where
  "digits_value acc [] = Some acc"
| "digits_value acc (c # cs) =
     (if c \<in> set ''0123456789'' then digits_value (10 * acc + (of_char c - 48)) cs else None)"

definition parse_decimal :: "string \<Rightarrow> nat option" where
  "parse_decimal cs = (if cs = [] then None else digits_value 0 cs)"

text \<open>What the register holds after it is set to the integer that a text denotes.\<close>

definition int32_literal :: "string \<Rightarrow> u32 option" where
  "int32_literal cs =
     (if cs \<noteq> [] \<and> hd cs = CHR ''-'' then
        (case parse_decimal (tl cs) of
           None \<Rightarrow> None
         | Some n \<Rightarrow> Some (if n \<le> 2 ^ 31 then - of_nat n else 0))
      else
        (case parse_decimal cs of
           None \<Rightarrow> None
         | Some n \<Rightarrow> Some (if n < 2 ^ 31 then of_nat n else 0)))"

datatype sim_stmt = SetUserVersion u32 | Insert | Other

definition sim_parse :: "string \<Rightarrow> go_error + sim_stmt" where
  "sim_parse q =
     (if take 22 q = ''PRAGMA user_version = '' \<and> drop (length q - 2) q = '' ;'' then
        (case int32_literal (take (length q - 24) (drop 22 q)) of
           Some n \<Rightarrow> Inr (SetUserVersion n)
         | None \<Rightarrow> Inl (DriverError 1))
      else if take 7 q = ''INSERT '' then Inr Insert
      else if q = ''PRAGMA foreign_keys = ON;'' \<or> take 7 q = ''CREATE '' then Inr Other
      else Inl (DriverError 1))"

text \<open>
  \<^verbatim>\<open>filepath.Clean\<close> and \<^verbatim>\<open>filepath.Dir\<close> where the separator is the slash and there
  is no volume name. \<^verbatim>\<open>Clean\<close> drops empty elements and \<^verbatim>\<open>.\<close> elements, drops a
  \<^verbatim>\<open>..\<close> element together with the element before it when that one is not \<^verbatim>\<open>..\<close>,
  drops a \<^verbatim>\<open>..\<close> that would leave the root, and returns \<^verbatim>\<open>.\<close> for an empty result;
  \<^verbatim>\<open>Dir\<close> cleans the path up to and including its last separator.
\<close>

fun split_path :: "string \<Rightarrow> string \<Rightarrow> string list" where
  "split_path cur [] = [cur]"
| "split_path cur (c # cs) =
     (if c = CHR ''/'' then cur # split_path [] cs else split_path (cur @ [c]) cs)"

fun clean_elems :: "bool \<Rightarrow> string list \<Rightarrow> string list \<Rightarrow> string list" where
  "clean_elems rooted out [] = rev out"
| "clean_elems rooted out (e # es) =
     (if e = [] \<or> e = ''.'' then clean_elems rooted out es
      else if e = ''..'' then
        (if out \<noteq> [] \<and> hd out \<noteq> ''..'' then clean_elems rooted (tl out) es
         else if rooted then clean_elems rooted out es
         else clean_elems rooted (e # out) es)
      else clean_elems rooted (e # out) es)"

fun join_path :: "string list \<Rightarrow> string" where
  "join_path [] = []"
| "join_path [e] = e"
| "join_path (e # es) = e @ ''/'' @ join_path es"

definition Clean :: "string \<Rightarrow> string" where
  "Clean p =
     (let rooted = (p \<noteq> [] \<and> hd p = CHR ''/'');
          body = join_path (clean_elems rooted [] (split_path [] p));
          r = (if rooted then CHR ''/'' # body else body)
      in if r = [] then ''.'' else r)"

definition sim_Dir :: "string \<Rightarrow> string" where
  "sim_Dir p = Clean (rev (dropWhile (\<lambda>c. c \<noteq> CHR ''/'') (rev p)))"

definition sim_Stat :: "string \<Rightarrow> sim \<Rightarrow> (go_error + file_kind) \<times> sim" where
  "sim_Stat p w = (case files w p of None \<Rightarrow> (Inl ErrNotExist, w) | Some k \<Rightarrow> (Inr k, w))"

definition sim_MkdirAll :: "string \<Rightarrow> u32 \<Rightarrow> sim \<Rightarrow> go_error option \<times> sim" where
  "sim_MkdirAll p m w =
     (case files w p of
        None \<Rightarrow> (None, w\<lparr>files := (files w)(p := Some Directory)\<rparr>)
      | Some Directory \<Rightarrow> (None, w)
      | Some _ \<Rightarrow> (Some (SysError 20), w))"

definition sim_Create :: "string \<Rightarrow> sim \<Rightarrow> (go_error + nat) \<times> sim" where
  "sim_Create p w =
     (case files w p of
        Some Directory \<Rightarrow> (Inl (SysError 21), w)
      | _ \<Rightarrow>
          (Inr (next_id w),
           w\<lparr>files := (files w)(p := Some Regular), registers := (registers w)(p := 0),
             rows := (rows w)(p := []), next_id := Suc (next_id w)\<rparr>))"

definition sim_Open :: "string \<Rightarrow> string \<Rightarrow> sim \<Rightarrow> (go_error + nat) \<times> sim" where
  "sim_Open driver dsn w =
     (if driver = ''sqlite3'' then (Inr (next_id w), w\<lparr>next_id := Suc (next_id w)\<rparr>)
      else (Inl (DriverError 0), w))"

definition sim_Prepare :: "db \<Rightarrow> string \<Rightarrow> sim \<Rightarrow> (go_error + nat) \<times> sim" where
  "sim_Prepare d q w =
     (case sim_parse q of
        Inl e \<Rightarrow> (Inl e, w)
      | Inr _ \<Rightarrow> (Inr (next_id w), w\<lparr>next_id := Suc (next_id w)\<rparr>))"

definition sim_Exec :: "stmt \<Rightarrow> string list \<Rightarrow> sim \<Rightarrow> go_error option \<times> sim" where
  "sim_Exec st args w =
     (let p = db_dsn (stmt_db st) in
      (case sim_parse (stmt_query st) of
         Inl e \<Rightarrow> (Some e, w)
       | Inr (SetUserVersion n) \<Rightarrow> (None, w\<lparr>registers := (registers w)(p := n)\<rparr>)
       | Inr Insert \<Rightarrow>
           (if set args \<inter> set (rows w p) = {} then (None, w\<lparr>rows := (rows w)(p := rows w p @ args)\<rparr>)
            else (Some (DriverError 19), w))
       | Inr Other \<Rightarrow> (None, w)))"

definition sim_Scan :: "db \<Rightarrow> string \<Rightarrow> sim \<Rightarrow> (go_error + u32) \<times> sim" where
  "sim_Scan d q w =
     (if q = ''PRAGMA user_version'' then
        (if unat (registers w (db_dsn d)) < 2 ^ 31 then (Inr (registers w (db_dsn d)), w)
         else (Inl (DriverError 2), w))
      else (Inl (DriverError 1), w))"

definition sim_env :: "sim env" where
  "sim_env =
     \<lparr>filepath_Dir = sim_Dir, os_Stat = sim_Stat, os_MkdirAll = sim_MkdirAll,
      os_Create = sim_Create, file_Close = (\<lambda>fh w. (None, w)), sql_Open = sim_Open,
      db_Close = (\<lambda>d w. (None, w)), db_Prepare = sim_Prepare, stmt_Exec = sim_Exec,
      stmt_Close = (\<lambda>st w. (None, w)), row_Scan = sim_Scan\<rparr>"

text \<open>
  The same environment while another connection holds the lock of the database file:
  the query for the register fails.
\<close>

definition sim_busy :: "sim env" where
  "sim_busy = sim_env\<lparr>row_Scan := (\<lambda>d q w. (Inl (DriverError 5), w))\<rparr>"

text \<open>An empty disk, and the start of a run on it.\<close>

definition sim_empty :: sim where
  "sim_empty = \<lparr>files = (\<lambda>p. None), registers = (\<lambda>p. 0), rows = (\<lambda>p. []), next_id = 0\<rparr>"

definition start :: "'w \<Rightarrow> 'w run" where
  "start w = \<lparr>world = w, trace = []\<rparr>"

text \<open>
  The run of \<^verbatim>\<open>InitAppDB\<close> on the empty disk, for a path \<open>p\<close>, up to its call of
  \<^verbatim>\<open>initSchema\<close>: the directory and the file are created and the file is opened.
\<close>

definition sim_created :: "string \<Rightarrow> sim run" where
  "sim_created p =
     snd (openAppDBNoValidate sim_env p
       (snd (call_FileClose sim_env 0
         (snd (call_Create sim_env p
           (snd (call_MkdirAll sim_env (sim_Dir p) ModeDir_0700
             (snd (call_Stat sim_env p (start sim_empty))))))))))"

subsection \<open>Reading a trace\<close>

text \<open>The events a run adds to the trace it started from.\<close>

definition new_events :: "'w run \<Rightarrow> 'w run \<Rightarrow> event list" where
  "new_events s s' = drop (length (trace s)) (trace s')"

text \<open>The statement texts prepared, and the errors of Prepare and Exec calls, in order.\<close>

fun prepared :: "event list \<Rightarrow> string list" where
  "prepared [] = []"
| "prepared ((Prepare d q, r) # t) = q # prepared t"
| "prepared (ev # t) = prepared t"

fun statement_errors :: "event list \<Rightarrow> go_error list" where
  "statement_errors [] = []"
| "statement_errors ((Prepare d q, Some e) # t) = e # statement_errors t"
| "statement_errors ((Exec st args, Some e) # t) = e # statement_errors t"
| "statement_errors (ev # t) = statement_errors t"

text \<open>
  \<open>all_ok E d qs s\<close>: the statements \<open>qs\<close>, run one after the other with
  \<^verbatim>\<open>ExecSqlStatement\<close> from \<open>s\<close>, all return nil, and this is the run they leave.
\<close>

fun all_ok :: "'w env \<Rightarrow> db \<Rightarrow> string list \<Rightarrow> 'w run \<Rightarrow> 'w run option" where
  "all_ok E d [] s = Some s"
| "all_ok E d (q # qs) s =
     (case ExecSqlStatement E d q s of
        (None, s1) \<Rightarrow> all_ok E d qs s1
      | (Some e, s1) \<Rightarrow> None)"

subsection \<open>What the package expects of the engine\<close>

text \<open>
  The package's code says nothing about what a statement does to a database file. To
  state what a run leaves in the user_version register, the register is read off the
  world by \<open>reg\<close> (the register of the database file at a path, as its 32 bits) and
  the engine's reading of a statement by \<open>writes\<close> (the value the statement stores in
  the register, if it stores one). An engine keeps to them when a successful Exec
  changes the register of the statement's database as \<open>writes\<close> says and no other
  register, and when the other calls the package makes after it has created the file
  change no register. The register is SQLite's, a signed integer of 32 bits: the
  statement \<^verbatim>\<open>PRAGMA user_version = N ;\<close>, for \<open>N\<close> in decimal without a sign, stores
  \<open>N\<close> when \<open>N\<close> is at most 2147483647 and 0 when it is larger; the foreign-keys
  pragma stores nothing; a scan of \<^verbatim>\<open>PRAGMA user_version\<close> into a \<^verbatim>\<open>uint32\<close> returns
  the register of the handle's file when the register is not negative (its bit 31 is
  clear), and fails when it is negative.
\<close>

definition engine_contract :: "'w env \<Rightarrow> ('w \<Rightarrow> string \<Rightarrow> u32) \<Rightarrow> (string \<Rightarrow> u32 option) \<Rightarrow> bool" where
  "engine_contract E reg writes \<longleftrightarrow>
     (\<forall>p w. reg (snd (os_Stat E p w)) = reg w) \<and>
     (\<forall>driver p w. reg (snd (sql_Open E driver p w)) = reg w) \<and>
     (\<forall>d q w. reg (snd (db_Prepare E d q w)) = reg w) \<and>
     (\<forall>st w. reg (snd (stmt_Close E st w)) = reg w) \<and>
     (\<forall>d w. reg (snd (db_Close E d w)) = reg w) \<and>
     (\<forall>d q w. reg (snd (row_Scan E d q w)) = reg w) \<and>
     (\<forall>st args w w'. stmt_Exec E st args w = (None, w') \<longrightarrow>
        reg w' = (case writes (stmt_query st) of
                    None \<Rightarrow> reg w
                  | Some n \<Rightarrow> (reg w)(db_dsn (stmt_db st) := n))) \<and>
     (\<forall>n. writes (''PRAGMA user_version = '' @ decimal n @ '' ;'') =
        Some (if n < 2 ^ 31 then of_nat n else 0)) \<and>
     writes ''PRAGMA foreign_keys = ON;'' = None \<and>
     (\<forall>d w. unat (reg w (db_dsn d)) < 2 ^ 31 \<longrightarrow>
        fst (row_Scan E d ''PRAGMA user_version'' w) = Inr (reg w (db_dsn d))) \<and>
     (\<forall>d w. 2 ^ 31 \<le> unat (reg w (db_dsn d)) \<longrightarrow>
        (\<exists>e. fst (row_Scan E d ''PRAGMA user_version'' w) = Inl e))"

text \<open>The reference engine's reading of a statement.\<close>

definition sim_writes :: "string \<Rightarrow> u32 option" where
  "sim_writes q = (case sim_parse q of Inr (SetUserVersion n) \<Rightarrow> Some n | _ \<Rightarrow> None)"

section \<open>Facts about the model\<close>

subsection \<open>Traces\<close>

lemmas call_defs = call_Stat_def call_MkdirAll_def call_Create_def call_FileClose_def call_SqlOpen_def
  call_DbClose_def call_Prepare_def call_Exec_def call_StmtClose_def call_QueryRowScan_def step_def err_of_def

lemma new_events_append: "trace s' = trace s @ T \<Longrightarrow> new_events s s' = T"
  by (simp add: new_events_def)

lemma prepared_append: "prepared (xs @ ys) = prepared xs @ prepared ys"
  by (induction xs rule: prepared.induct) simp_all

lemma statement_errors_append: "statement_errors (xs @ ys) = statement_errors xs @ statement_errors ys"
  by (induction xs rule: statement_errors.induct) simp_all

subsection \<open>Words and bytes\<close>

lemma le32_byte0: "ucast (LittleEndian_Uint32 [a, b, c, d]) = a"
  by (rule bit_word_eqI) (auto simp add: LittleEndian_Uint32_def bit_simps dest: bit_imp_le_length)

lemma le32_byte1: "ucast (drop_bit 8 (LittleEndian_Uint32 [a, b, c, d])) = b"
  by (rule bit_word_eqI) (auto simp add: LittleEndian_Uint32_def bit_simps dest: bit_imp_le_length)

lemma le32_byte2: "ucast (drop_bit 16 (LittleEndian_Uint32 [a, b, c, d])) = c"
  by (rule bit_word_eqI) (auto simp add: LittleEndian_Uint32_def bit_simps dest: bit_imp_le_length)

lemma le32_byte3: "ucast (drop_bit 24 (LittleEndian_Uint32 [a, b, c, d])) = d"
  by (rule bit_word_eqI) (auto simp add: LittleEndian_Uint32_def bit_simps dest: bit_imp_le_length)

lemma mask24: "(0x00ffffff :: u32) = mask 24"
  by (simp add: mask_eq_exp_minus_1)

lemma le32_low24: "LittleEndian_Uint32 [a, b, c, d] AND 0x00ffffff = LittleEndian_Uint32 [a, b, c, 0]"
  unfolding mask24
  by (rule bit_word_eqI) (auto simp add: LittleEndian_Uint32_def bit_simps dest: bit_imp_le_length)

lemma fields_determine:
  fixes x y :: u32
  assumes a: "x AND 0x00ffffff = y AND 0x00ffffff"
    and b: "(ucast (drop_bit 24 x) :: u8) = ucast (drop_bit 24 y)"
  shows "x = y"
proof (rule bit_word_eqI)
  fix n assume n: "n < LENGTH(32)"
  show "bit x n = bit y n"
  proof (cases "n < 24")
    case True
    from a have "bit (x AND mask 24) n = bit (y AND mask 24) n" by (simp add: mask24)
    with True show ?thesis by (simp add: bit_simps)
  next
    case False
    from b have "bit (ucast (drop_bit 24 x) :: u8) (n - 24) = bit (ucast (drop_bit 24 y) :: u8) (n - 24)"
      by simp
    moreover from False n have "n - 24 < 8" by simp
    ultimately show ?thesis using False by (simp add: bit_simps)
  qed
qed

lemma nat_bytes:
  fixes N :: nat
  shows "N = N mod 256 + 256 * (N div 256 mod 256) + 65536 * (N div 65536 mod 256)
           + 16777216 * (N div 16777216)"
proof -
  define q1 where "q1 = N div 256"
  define q2 where "q2 = q1 div 256"
  define q3 where "q3 = q2 div 256"
  have e1: "N = N mod 256 + 256 * q1" by (simp add: q1_def)
  have e2: "q1 = q1 mod 256 + 256 * q2" by (simp add: q2_def)
  have e3: "q2 = q2 mod 256 + 256 * q3" by (simp add: q3_def)
  have d2: "q2 = N div 65536" by (simp add: q2_def q1_def div_mult2_eq)
  have d3: "q3 = N div 16777216" by (simp add: q3_def d2 div_mult2_eq)
  have "N = N mod 256 + 256 * (q1 mod 256) + 65536 * (q2 mod 256) + 16777216 * q3"
    using e1 e2 e3 by linarith
  then show ?thesis by (simp only: q1_def d2 d3)
qed

lemma unat_bytes:
  "unat (x::u32) = unat (ucast x :: u8) + 256 * unat (ucast (drop_bit 8 x) :: u8)
     + 65536 * unat (ucast (drop_bit 16 x) :: u8) + 16777216 * unat (ucast (drop_bit 24 x) :: u8)"
proof -
  have "unat x < 4294967296"
    using unsigned_less [of x, where ?'a = nat] by simp
  then have "unat x div 16777216 < 256"
    by (simp add: less_mult_imp_div_less)
  then have top: "unat x div 16777216 mod 256 = unat x div 16777216"
    by simp
  show ?thesis
    using nat_bytes [of "unat x"]
    by (simp add: unsigned_ucast_eq unat_drop_bit_eq drop_bit_eq_div take_bit_eq_mod
        unat_div_distrib top)
qed

lemma length_be32: "length (be32 x) = 4"
  by (simp add: be32_def)

lemma length_Sum256: "length (Sum256 m) = 32"
  by (simp add: Sum256_def Let_def length_be32 split: prod.split)

lemma getUserVersion_le:
  "getUserVersion a v =
     LittleEndian_Uint32 [Sum256 (bytes a) ! 0, Sum256 (bytes a) ! 1, Sum256 (bytes a) ! 2, v]"
  by (simp add: getUserVersion_def Let_def)

lemma getUserVersion_version: "ucast (drop_bit 24 (getUserVersion a v)) = v"
  by (simp only: getUserVersion_le le32_byte3)

lemma getUserVersion_id: "getUserVersion a v AND 0x00ffffff = getUserVersion a v' AND 0x00ffffff"
  by (simp only: getUserVersion_le le32_low24)

lemma getUserVersion_range:
  "16777216 * unat v \<le> unat (getUserVersion a v) \<and>
   unat (getUserVersion a v) < 16777216 * unat v + 16777216"
proof -
  have b: "unat w < 256" for w :: u8
    using unsigned_less [of w, where ?'a = nat] by simp
  show ?thesis
    using unat_bytes [of "getUserVersion a v"] b [of "ucast (getUserVersion a v)"]
      b [of "ucast (drop_bit 8 (getUserVersion a v))"]
      b [of "ucast (drop_bit 16 (getUserVersion a v))"]
    by (simp add: getUserVersion_version)
qed

text \<open>
  The fingerprint is below \<open>2 ^ 31\<close> exactly when the schema version is below 128.
\<close>

lemma getUserVersion_sign: "unat (getUserVersion a v) < 2 ^ 31 \<longleftrightarrow> v < 128"
proof -
  have "v < 128 \<longleftrightarrow> unat v < 128"
    by (simp add: word_less_nat_alt)
  with getUserVersion_range [of v a] show ?thesis
    by simp linarith
qed

subsection \<open>Printing and reading a number\<close>

lemma decimal_nonempty: "decimal n \<noteq> []"
  by (subst decimal.simps) simp

lemma digit_char:
  assumes "d < 10"
  shows "''0123456789'' ! d \<in> set ''0123456789'' \<and> of_char (''0123456789'' ! d) - 48 = d \<and>
         ''0123456789'' ! d \<noteq> CHR ''-''"
proof -
  from assms have "d \<in> {0, 1, 2, 3, 4, 5, 6, 7, 8, 9}" by auto
  then show ?thesis by auto
qed

lemma digits_value_append:
  "digits_value acc (xs @ ys) =
     (case digits_value acc xs of None \<Rightarrow> None | Some a \<Rightarrow> digits_value a ys)"
  by (induction xs arbitrary: acc) simp_all

lemma digits_value_decimal: "digits_value 0 (decimal n) = Some n"
proof (induction n rule: decimal.induct)
  case (1 n)
  show ?case
  proof (cases "n < 10")
    case True
    then show ?thesis
      using digit_char [of n] by (subst decimal.simps) simp
  next
    case False
    have d: "n mod 10 < 10" by simp
    from False 1 have ih: "digits_value 0 (decimal (n div 10)) = Some (n div 10)" by simp
    show ?thesis
      using False digit_char [OF d]
      by (subst decimal.simps) (simp add: digits_value_append ih)
  qed
qed

text \<open>The digits that \<^verbatim>\<open>%d\<close> prints denote the number printed.\<close>

lemma parse_decimal_decimal: "parse_decimal (decimal n) = Some n"
  by (simp add: parse_decimal_def decimal_nonempty digits_value_decimal)

lemma hd_decimal: "hd (decimal n) \<noteq> CHR ''-''"
proof (induction n rule: decimal.induct)
  case (1 n)
  show ?case
  proof (cases "n < 10")
    case True
    then show ?thesis using digit_char [of n] by (subst decimal.simps) simp
  next
    case False
    with 1 have "hd (decimal (n div 10)) \<noteq> CHR ''-''" by simp
    with False show ?thesis
      by (subst decimal.simps) (simp add: hd_append decimal_nonempty)
  qed
qed

lemma int32_literal_decimal:
  "int32_literal (decimal n) = Some (if n < 2 ^ 31 then of_nat n else 0)"
  by (simp add: int32_literal_def hd_decimal parse_decimal_decimal)

lemma sim_parse_pragma:
  "sim_parse (''PRAGMA user_version = '' @ decimal n @ '' ;'') =
     Inr (SetUserVersion (if n < 2 ^ 31 then of_nat n else 0))"
  by (simp add: sim_parse_def int32_literal_decimal)

subsection \<open>Opening and validating\<close>

lemma validateDB_scanned:
  assumes "row_Scan E d ''PRAGMA user_version'' (world s) = (Inr stored, w)"
  shows "validateDB E d a v s =
     ((if stored = getUserVersion a v then None
       else if stored AND 0x00ffffff \<noteq> getUserVersion a v AND 0x00ffffff
       then Some (AppIdError (stored AND 0x00ffffff) (getUserVersion a v AND 0x00ffffff))
       else Some (SchemaVersionError (ucast (drop_bit 24 stored)) (ucast (drop_bit 24 (getUserVersion a v))))),
      step (QueryRowScan d ''PRAGMA user_version'') None w s)"
proof -
  have "stored AND 0x00ffffff = getUserVersion a v AND 0x00ffffff \<Longrightarrow>
        (ucast (drop_bit 24 stored) :: u8) = ucast (drop_bit 24 (getUserVersion a v)) \<Longrightarrow>
        stored = getUserVersion a v"
    by (rule fields_determine)
  then show ?thesis
    using assms by (auto simp add: validateDB_def call_QueryRowScan_def err_of_def Let_def)
qed

lemma openAppDBNoValidate_Some:
  assumes "openAppDBNoValidate E p s = ((Some d, None), s1)"
  shows "\<exists>w1 i. os_Stat E p (world s) = (Inr Regular, w1) \<and>
           sql_Open E ''sqlite3'' p w1 = (Inr i, world s1) \<and> d = DB i p \<and>
           trace s1 = trace s @ [(Stat p, None), (SqlOpen ''sqlite3'' p, None)]"
  using assms
  by (auto simp add: openAppDBNoValidate_def call_defs IsRegular_def
      split: prod.splits sum.splits if_splits)

text \<open>
  The branches for a nil handle with a nil error are never taken.
\<close>

lemma openAppDBNoValidate_not_nil_nil: "fst (openAppDBNoValidate E p s) \<noteq> (None, None)"
  by (auto simp add: openAppDBNoValidate_def call_defs split: prod.splits sum.splits)

subsection \<open>The statement loops\<close>

lemma ExecSqlStatement_events:
  assumes "ExecSqlStatement E d q s = (r, s')"
  shows "\<exists>T. trace s' = trace s @ T \<and> prepared T = [q] \<and>
           statement_errors T = (case r of None \<Rightarrow> [] | Some e \<Rightarrow> [e]) \<and>
           (T = [(Prepare d q, r)] \<and> r \<noteq> None \<or>
            (\<exists>i c. T = [(Prepare d q, None), (Exec (Stmt i d q) [], r), (StmtClose (Stmt i d q), c)]))"
  using assms
  by (auto simp add: ExecSqlStatement_def call_defs split: prod.splits sum.splits option.splits)

lemma ExecSqlStatement_prepared: "prepared (new_events s (snd (ExecSqlStatement E d q s))) = [q]"
proof -
  obtain r s' where e: "ExecSqlStatement E d q s = (r, s')" by (cases "ExecSqlStatement E d q s")
  from ExecSqlStatement_events [OF e] obtain T where "trace s' = trace s @ T" "prepared T = [q]"
    by blast
  then show ?thesis by (simp add: e new_events_append)
qed

lemma schema_loop_spec:
  assumes "schema_loop E d qs s = (r, s')"
  shows "\<exists>T. trace s' = trace s @ T \<and>
          (r = None \<and> all_ok E d qs s = Some s' \<and> prepared T = qs \<and> statement_errors T = [] \<or>
           (\<exists>pre q post e s1. qs = pre @ q # post \<and> all_ok E d pre s = Some s1 \<and>
              ExecSqlStatement E d q s1 = (Some e, s') \<and> r = Some (SchemaError q e) \<and>
              prepared T = pre @ [q] \<and> statement_errors T = [e]))"
  using assms
proof (induction qs arbitrary: s)
  case Nil
  then show ?case by simp
next
  case (Cons q qs)
  obtain r1 s1 where ex: "ExecSqlStatement E d q s = (r1, s1)"
    by (cases "ExecSqlStatement E d q s")
  from ExecSqlStatement_events [OF ex] obtain T1 where
    T1: "trace s1 = trace s @ T1" "prepared T1 = [q]"
        "statement_errors T1 = (case r1 of None \<Rightarrow> [] | Some e \<Rightarrow> [e])"
    by blast
  show ?case
  proof (cases r1)
    case (Some e)
    with Cons.prems ex have "r = Some (SchemaError q e)" "s' = s1" by simp_all
    with ex Some T1 have "trace s' = trace s @ T1 \<and>
        (\<exists>pre q' post e' s0. q # qs = pre @ q' # post \<and> all_ok E d pre s = Some s0 \<and>
              ExecSqlStatement E d q' s0 = (Some e', s') \<and> r = Some (SchemaError q' e') \<and>
              prepared T1 = pre @ [q'] \<and> statement_errors T1 = [e'])"
      by (intro conjI exI [of _ "[]"] exI [of _ q] exI [of _ qs] exI [of _ e] exI [of _ s]) simp_all
    then show ?thesis by blast
  next
    case None
    with Cons.prems ex have rest: "schema_loop E d qs s1 = (r, s')" by simp
    from Cons.IH [OF rest] obtain T2 where
      T2: "trace s' = trace s1 @ T2"
      and alt: "r = None \<and> all_ok E d qs s1 = Some s' \<and> prepared T2 = qs \<and> statement_errors T2 = [] \<or>
           (\<exists>pre q' post e s0. qs = pre @ q' # post \<and> all_ok E d pre s1 = Some s0 \<and>
              ExecSqlStatement E d q' s0 = (Some e, s') \<and> r = Some (SchemaError q' e) \<and>
              prepared T2 = pre @ [q'] \<and> statement_errors T2 = [e])"
      by blast
    have tr: "trace s' = trace s @ (T1 @ T2)" using T1 T2 by simp
    from alt show ?thesis
    proof
      assume "r = None \<and> all_ok E d qs s1 = Some s' \<and> prepared T2 = qs \<and> statement_errors T2 = []"
      with tr T1 None ex show ?thesis
        by (intro exI [of _ "T1 @ T2"]) (simp add: prepared_append statement_errors_append)
    next
      assume "\<exists>pre q' post e s0. qs = pre @ q' # post \<and> all_ok E d pre s1 = Some s0 \<and>
              ExecSqlStatement E d q' s0 = (Some e, s') \<and> r = Some (SchemaError q' e) \<and>
              prepared T2 = pre @ [q'] \<and> statement_errors T2 = [e]"
      then obtain pre q' post e s0 where
        d: "qs = pre @ q' # post" "all_ok E d pre s1 = Some s0"
           "ExecSqlStatement E d q' s0 = (Some e, s')" "r = Some (SchemaError q' e)"
           "prepared T2 = pre @ [q']" "statement_errors T2 = [e]"
        by blast
      have "q # qs = (q # pre) @ q' # post \<and> all_ok E d (q # pre) s = Some s0 \<and>
              ExecSqlStatement E d q' s0 = (Some e, s') \<and> r = Some (SchemaError q' e) \<and>
              prepared (T1 @ T2) = (q # pre) @ [q'] \<and> statement_errors (T1 @ T2) = [e]"
        using d T1 None ex by (simp add: prepared_append statement_errors_append)
      with tr show ?thesis by blast
    qed
  qed
qed

lemma call_Exec_events:
  "call_Exec E st args s = (r, s') \<Longrightarrow> trace s' = trace s @ [(Exec st args, r)]"
  by (auto simp add: call_defs split: prod.splits)

lemma bulk_loop_spec:
  assumes "bulk_loop E st vs s = (r, s')"
  shows "\<exists>T k. trace s' = trace s @ T \<and> k \<le> length vs \<and>
           map fst T = map (\<lambda>v. Exec st [v]) (take k vs) \<and>
           map snd T = (case r of None \<Rightarrow> replicate k None
                        | Some e \<Rightarrow> replicate (k - 1) None @ [Some e]) \<and>
           (r = None \<longrightarrow> k = length vs) \<and> (r \<noteq> None \<longrightarrow> 0 < k)"
  using assms
proof (induction vs arbitrary: s)
  case Nil
  then show ?case by simp
next
  case (Cons v vs)
  obtain r1 s1 where ex: "call_Exec E st [v] s = (r1, s1)"
    by (cases "call_Exec E st [v] s")
  note tr1 = call_Exec_events [OF ex]
  show ?case
  proof (cases r1)
    case (Some e)
    with Cons.prems ex have "r = Some e" "s' = s1" by simp_all
    with tr1 Some have "trace s' = trace s @ [(Exec st [v], Some e)] \<and> Suc 0 \<le> length (v # vs) \<and>
           map fst [(Exec st [v], Some e)] = map (\<lambda>v. Exec st [v]) (take (Suc 0) (v # vs)) \<and>
           map snd [(Exec st [v], Some e)] = (case r of None \<Rightarrow> replicate (Suc 0) None
                        | Some e \<Rightarrow> replicate (Suc 0 - 1) None @ [Some e]) \<and>
           (r = None \<longrightarrow> Suc 0 = length (v # vs)) \<and> (r \<noteq> None \<longrightarrow> 0 < Suc 0)"
      by simp
    then show ?thesis by blast
  next
    case None
    with Cons.prems ex have rest: "bulk_loop E st vs s1 = (r, s')" by simp
    from Cons.IH [OF rest] obtain T k where
      IH: "trace s' = trace s1 @ T" "k \<le> length vs"
          "map fst T = map (\<lambda>v. Exec st [v]) (take k vs)"
          "map snd T = (case r of None \<Rightarrow> replicate k None
                        | Some e \<Rightarrow> replicate (k - 1) None @ [Some e])"
          "r = None \<longrightarrow> k = length vs" "r \<noteq> None \<longrightarrow> 0 < k"
      by blast
    have snd_eq: "map snd ((Exec st [v], None) # T) =
            (case r of None \<Rightarrow> replicate (Suc k) None
             | Some e \<Rightarrow> replicate (Suc k - 1) None @ [Some e])"
    proof (cases r)
      case None
      with IH(4) show ?thesis by simp
    next
      case (Some e)
      with IH(6) obtain j where "k = Suc j" by (cases k) auto
      with IH(4) Some show ?thesis by simp
    qed
    have "trace s' = trace s @ ((Exec st [v], None) # T) \<and> Suc k \<le> length (v # vs) \<and>
           map fst ((Exec st [v], None) # T) = map (\<lambda>v. Exec st [v]) (take (Suc k) (v # vs)) \<and>
           map snd ((Exec st [v], None) # T) =
             (case r of None \<Rightarrow> replicate (Suc k) None
              | Some e \<Rightarrow> replicate (Suc k - 1) None @ [Some e]) \<and>
           (r = None \<longrightarrow> Suc k = length (v # vs)) \<and> (r \<noteq> None \<longrightarrow> 0 < Suc k)"
      using IH tr1 None snd_eq by simp
    then show ?thesis by blast
  qed
qed

lemma prepared_Exec_only:
  "map fst X = map (\<lambda>v. Exec st [v]) ys \<Longrightarrow> prepared X = []"
proof (induction X arbitrary: ys)
  case Nil
  then show ?case by simp
next
  case (Cons ev X)
  then obtain y ys' where ys: "ys = y # ys'" by (cases ys) auto
  with Cons.prems have "fst ev = Exec st [y]" and "map fst X = map (\<lambda>v. Exec st [v]) ys'"
    by simp_all
  with Cons.IH [of ys'] show ?case by (cases ev) simp
qed

lemma ExecBulkSql_prepared: "prepared (new_events s (snd (ExecBulkSql E d q vs s))) = [q]"
proof -
  obtain r w where p: "db_Prepare E d q (world s) = (r, w)"
    by (cases "db_Prepare E d q (world s)")
  show ?thesis
  proof (cases r)
    case (Inl e)
    with p show ?thesis
      by (simp add: ExecBulkSql_def call_defs new_events_def)
  next
    case (Inr i)
    define s1 where "s1 = step (Prepare d q) None w s"
    have cp: "call_Prepare E d q s = (Inr (Stmt i d q), s1)"
      using p Inr by (simp add: call_Prepare_def s1_def)
    obtain r2 s2 where loop: "bulk_loop E (Stmt i d q) vs s1 = (r2, s2)"
      by (cases "bulk_loop E (Stmt i d q) vs s1")
    obtain c s3 where cl: "call_StmtClose E (Stmt i d q) s2 = (c, s3)"
      by (cases "call_StmtClose E (Stmt i d q) s2")
    have res: "ExecBulkSql E d q vs s = (r2, s3)"
      by (simp add: ExecBulkSql_def cp loop cl)
    from bulk_loop_spec [OF loop] obtain X k where
      X: "trace s2 = trace s1 @ X" "map fst X = map (\<lambda>v. Exec (Stmt i d q) [v]) (take k vs)"
      by blast
    have t3: "trace s3 = trace s2 @ [(StmtClose (Stmt i d q), c)]"
      using cl by (auto simp add: call_defs split: prod.splits)
    have t1: "trace s1 = trace s @ [(Prepare d q, None)]"
      by (simp add: s1_def step_def)
    have "new_events s s3 = (Prepare d q, None) # X @ [(StmtClose (Stmt i d q), c)]"
      by (rule new_events_append) (simp add: t3 X(1) t1)
    then show ?thesis
      by (simp add: res prepared_append prepared_Exec_only [OF X(2)])
  qed
qed

text \<open>
  \<^verbatim>\<open>initSchema\<close> runs the register's pragma, the foreign-keys pragma and the caller's
  statements in this order. Either every statement returns nil and so does
  \<^verbatim>\<open>initSchema\<close>; or the list splits into statements that returned nil, a statement \<open>q\<close>
  that failed with \<open>e\<close> and the rest: then the result is \<^verbatim>\<open>SchemaError{q, e}\<close>, the
  statements prepared are those up to \<open>q\<close>, and the run that \<^verbatim>\<open>initSchema\<close> leaves is
  the one the failed statement left. The text of the first statement is the pragma
  with the digits of the fingerprint.
\<close>

lemma initSchema_runs:
  "schema_statements appName schemaVersion schema =
     Sprintf_user_version (getUserVersion appName schemaVersion) # ''PRAGMA foreign_keys = ON;'' # schema \<and>
   (fst (initSchema E d appName schemaVersion schema s) = None \<and>
    all_ok E d (schema_statements appName schemaVersion schema) s =
      Some (snd (initSchema E d appName schemaVersion schema s)) \<and>
    prepared (new_events s (snd (initSchema E d appName schemaVersion schema s))) =
      schema_statements appName schemaVersion schema \<and>
    statement_errors (new_events s (snd (initSchema E d appName schemaVersion schema s))) = [] \<or>
    (\<exists>pre q post e s1.
       schema_statements appName schemaVersion schema = pre @ q # post \<and>
       all_ok E d pre s = Some s1 \<and>
       ExecSqlStatement E d q s1 = (Some e, snd (initSchema E d appName schemaVersion schema s)) \<and>
       fst (initSchema E d appName schemaVersion schema s) = Some (SchemaError q e) \<and>
       prepared (new_events s (snd (initSchema E d appName schemaVersion schema s))) = pre @ [q] \<and>
       statement_errors (new_events s (snd (initSchema E d appName schemaVersion schema s))) = [e]))"
proof -
  obtain r s' where R: "initSchema E d appName schemaVersion schema s = (r, s')"
    by (cases "initSchema E d appName schemaVersion schema s")
  then have "schema_loop E d (schema_statements appName schemaVersion schema) s = (r, s')"
    by (simp add: initSchema_def)
  from schema_loop_spec [OF this] obtain T where
    T: "trace s' = trace s @ T"
    and alt: "r = None \<and> all_ok E d (schema_statements appName schemaVersion schema) s = Some s' \<and>
           prepared T = schema_statements appName schemaVersion schema \<and> statement_errors T = [] \<or>
           (\<exists>pre q post e s1. schema_statements appName schemaVersion schema = pre @ q # post \<and>
              all_ok E d pre s = Some s1 \<and>
              ExecSqlStatement E d q s1 = (Some e, s') \<and> r = Some (SchemaError q e) \<and>
              prepared T = pre @ [q] \<and> statement_errors T = [e])"
    by blast
  have ne: "new_events s s' = T" using T by (rule new_events_append)
  have shape: "schema_statements appName schemaVersion schema =
     Sprintf_user_version (getUserVersion appName schemaVersion) # ''PRAGMA foreign_keys = ON;'' # schema"
    by (simp add: schema_statements_def)
  from alt show ?thesis
    unfolding R fst_conv snd_conv ne using shape by blast
qed

lemma first_statement_text:
  "\<exists>ds. hd (schema_statements appName schemaVersion schema) =
          ''PRAGMA user_version = '' @ ds @ '' ;'' \<and>
        parse_decimal ds = Some (unat (getUserVersion appName schemaVersion))"
  by (simp add: schema_statements_def Sprintf_user_version_def parse_decimal_decimal)

subsection \<open>The creating branch of InitAppDB\<close>

text \<open>
  When the file is created and opened, the result of \<^verbatim>\<open>InitAppDB\<close> is the handle and
  nil, whatever \<^verbatim>\<open>initSchema\<close> returns; and a run that returns a handle after a Stat
  that found nothing went through these steps.
\<close>

lemma InitAppDB_created:
  assumes "call_Stat E p s = (r, s1)" and "IsNotExist (err_of r)"
    and "call_MkdirAll E (filepath_Dir E p) ModeDir_0700 s1 = (None, s2)"
    and "call_Create E p s2 = (Inr fh, s3)"
    and "call_FileClose E fh s3 = (c, s4)"
    and "openAppDBNoValidate E p s4 = ((Some d, None), s5)"
  shows "InitAppDB E p a v schema s = ((Some d, None), snd (initSchema E d a v schema s5))"
  using assms by (simp add: InitAppDB_def split: prod.splits)

lemma InitAppDB_creation:
  assumes fresh: "IsNotExist (err_of (fst (os_Stat E p (world s))))"
    and init: "InitAppDB E p a v schema s = ((Some d, None), s')"
  shows "\<exists>s4 s5 T4. trace s4 = trace s @ T4 \<and> prepared T4 = [] \<and> statement_errors T4 = [] \<and>
           openAppDBNoValidate E p s4 = ((Some d, None), s5) \<and>
           s' = snd (initSchema E d a v schema s5)"
proof -
  obtain r1 w1 where st: "os_Stat E p (world s) = (r1, w1)" by (cases "os_Stat E p (world s)")
  with fresh have r1: "r1 = Inl ErrNotExist"
    by (cases r1) (simp_all add: IsNotExist_def err_of_def)
  define s1 where "s1 = step (Stat p) (Some ErrNotExist) w1 s"
  have c1: "call_Stat E p s = (Inl ErrNotExist, s1)"
    by (simp add: call_Stat_def st r1 s1_def err_of_def)
  obtain r2 s2 where c2: "call_MkdirAll E (filepath_Dir E p) ModeDir_0700 s1 = (r2, s2)"
    by (cases "call_MkdirAll E (filepath_Dir E p) ModeDir_0700 s1")
  have r2: "r2 = None"
    using init by (cases r2) (simp_all add: InitAppDB_def c1 c2 IsNotExist_def err_of_def)
  obtain r3 s3 where c3: "call_Create E p s2 = (r3, s3)" by (cases "call_Create E p s2")
  obtain fh where r3: "r3 = Inr fh"
    using init by (cases r3) (simp_all add: InitAppDB_def c1 c2 r2 c3 IsNotExist_def err_of_def)
  obtain r4 s4 where c4: "call_FileClose E fh s3 = (r4, s4)" by (cases "call_FileClose E fh s3")
  obtain ho eo s5 where c5: "openAppDBNoValidate E p s4 = ((ho, eo), s5)"
    by (cases "openAppDBNoValidate E p s4") auto
  obtain r6 s6 where c6: "initSchema E d a v schema s5 = (r6, s6)"
    by (cases "initSchema E d a v schema s5")
  have red: "InitAppDB E p a v schema s =
     (case ((ho, eo), s5) of
        ((_, Some err), s5) \<Rightarrow> ((None, Some err), s5)
      | ((None, None), s5) \<Rightarrow> ((None, Some NilDereference), s5)
      | ((Some d, None), s5) \<Rightarrow>
          (case initSchema E d a v schema s5 of (_, s6) \<Rightarrow> ((Some d, None), s6)))"
    by (simp add: InitAppDB_def c1 c2 r2 c3 r3 c4 c5 IsNotExist_def err_of_def)
  have eo: "eo = None" using init unfolding red by (cases eo; cases ho) simp_all
  have ho: "ho = Some d" using init unfolding red eo by (cases ho) (auto split: prod.splits)
  have s': "s' = s6" using init unfolding red eo ho by (simp add: c6)
  have t1: "trace s1 = trace s @ [(Stat p, Some ErrNotExist)]" by (simp add: s1_def step_def)
  have t2: "trace s2 = trace s1 @ [(MkdirAll (filepath_Dir E p) ModeDir_0700, None)]"
    using c2 r2 by (auto simp add: call_defs split: prod.splits)
  have t3: "trace s3 = trace s2 @ [(Create p, None)]"
    using c3 r3 by (auto simp add: call_defs split: prod.splits)
  have t4: "trace s4 = trace s3 @ [(FileClose fh, r4)]"
    using c4 by (auto simp add: call_defs split: prod.splits)
  have "trace s4 = trace s @ [(Stat p, Some ErrNotExist),
      (MkdirAll (filepath_Dir E p) ModeDir_0700, None), (Create p, None), (FileClose fh, r4)]"
    by (simp add: t1 t2 t3 t4)
  moreover have "prepared [(Stat p, Some ErrNotExist),
      (MkdirAll (filepath_Dir E p) ModeDir_0700, None), (Create p, None), (FileClose fh, r4)] = []"
    by simp
  moreover have "statement_errors [(Stat p, Some ErrNotExist),
      (MkdirAll (filepath_Dir E p) ModeDir_0700, None), (Create p, None), (FileClose fh, r4)] = []"
    by simp
  moreover have "openAppDBNoValidate E p s4 = ((Some d, None), s5)" by (simp add: c5 ho eo)
  moreover have "s' = snd (initSchema E d a v schema s5)" by (simp add: s' c6)
  ultimately show ?thesis by blast
qed

subsection \<open>Engines that keep to the contract\<close>

lemma contract_Stat: "engine_contract E reg writes \<Longrightarrow> os_Stat E p w = (r, w') \<Longrightarrow> reg w' = reg w"
  unfolding engine_contract_def by (metis snd_conv)

lemma contract_Open: "engine_contract E reg writes \<Longrightarrow> sql_Open E drv p w = (r, w') \<Longrightarrow> reg w' = reg w"
  unfolding engine_contract_def by (metis snd_conv)

lemma contract_Prepare: "engine_contract E reg writes \<Longrightarrow> db_Prepare E d q w = (r, w') \<Longrightarrow> reg w' = reg w"
  unfolding engine_contract_def by (metis snd_conv)

lemma contract_StmtClose: "engine_contract E reg writes \<Longrightarrow> stmt_Close E st w = (r, w') \<Longrightarrow> reg w' = reg w"
  unfolding engine_contract_def by (metis snd_conv)

lemma contract_DbClose: "engine_contract E reg writes \<Longrightarrow> db_Close E d w = (r, w') \<Longrightarrow> reg w' = reg w"
  unfolding engine_contract_def by (metis snd_conv)

lemma contract_Scan: "engine_contract E reg writes \<Longrightarrow> row_Scan E d q w = (r, w') \<Longrightarrow> reg w' = reg w"
  unfolding engine_contract_def by (metis snd_conv)

lemma contract_Exec:
  "engine_contract E reg writes \<Longrightarrow> stmt_Exec E st args w = (None, w') \<Longrightarrow>
     reg w' = (case writes (stmt_query st) of None \<Rightarrow> reg w
               | Some n \<Rightarrow> (reg w)(db_dsn (stmt_db st) := n))"
  unfolding engine_contract_def by blast

lemma contract_pragma:
  assumes "engine_contract E reg writes"
  shows "writes (Sprintf_user_version uv) = Some (if unat uv < 2 ^ 31 then uv else 0)"
proof -
  from assms have "writes (''PRAGMA user_version = '' @ decimal (unat uv) @ '' ;'') =
      Some (if unat uv < 2 ^ 31 then of_nat (unat uv) else 0)"
    unfolding engine_contract_def by blast
  then show ?thesis by (simp add: Sprintf_user_version_def)
qed

lemma contract_foreign_keys:
  "engine_contract E reg writes \<Longrightarrow> writes ''PRAGMA foreign_keys = ON;'' = None"
  unfolding engine_contract_def by blast

lemma contract_scan_value:
  assumes "engine_contract E reg writes" and "unat (reg w (db_dsn d)) < 2 ^ 31"
  shows "\<exists>w'. row_Scan E d ''PRAGMA user_version'' w = (Inr (reg w (db_dsn d)), w')"
proof -
  from assms have "fst (row_Scan E d ''PRAGMA user_version'' w) = Inr (reg w (db_dsn d))"
    unfolding engine_contract_def by blast
  then show ?thesis by (cases "row_Scan E d ''PRAGMA user_version'' w") simp
qed

lemma contract_read:
  assumes c: "engine_contract E reg writes"
    and sc: "row_Scan E d ''PRAGMA user_version'' w = (Inr n, w')"
  shows "n = reg w (db_dsn d) \<and> unat n < 2 ^ 31"
proof (cases "unat (reg w (db_dsn d)) < 2 ^ 31")
  case True
  from contract_scan_value [OF c True] sc show ?thesis using True by auto
next
  case False
  with c have "\<exists>e. fst (row_Scan E d ''PRAGMA user_version'' w) = Inl e"
    unfolding engine_contract_def by (simp add: not_less)
  with sc show ?thesis by simp
qed

lemma contract_ExecSqlStatement:
  assumes c: "engine_contract E reg writes" and ex: "ExecSqlStatement E d q s = (None, s')"
  shows "reg (world s') =
           (case writes q of None \<Rightarrow> reg (world s) | Some n \<Rightarrow> (reg (world s))(db_dsn d := n))"
proof -
  obtain r1 w1 where p: "db_Prepare E d q (world s) = (r1, w1)"
    by (cases "db_Prepare E d q (world s)")
  from ex p obtain i where r1: "r1 = Inr i"
    by (cases r1) (simp_all add: ExecSqlStatement_def call_defs)
  obtain r2 w2 where e: "stmt_Exec E (Stmt i d q) [] w1 = (r2, w2)"
    by (cases "stmt_Exec E (Stmt i d q) [] w1")
  obtain r3 w3 where cl: "stmt_Close E (Stmt i d q) w2 = (r3, w3)"
    by (cases "stmt_Close E (Stmt i d q) w2")
  have "ExecSqlStatement E d q s =
          (r2, step (StmtClose (Stmt i d q)) r3 w3
                 (step (Exec (Stmt i d q) []) r2 w2 (step (Prepare d q) None w1 s)))"
    by (cases r2) (simp_all add: ExecSqlStatement_def call_Prepare_def call_Exec_def
        call_StmtClose_def p r1 e cl step_def)
  with ex have r2: "r2 = None" and w: "world s' = w3"
    by (auto simp add: step_def)
  have "reg w1 = reg (world s)" by (rule contract_Prepare [OF c p])
  moreover have "reg w2 = (case writes q of None \<Rightarrow> reg w1 | Some n \<Rightarrow> (reg w1)(db_dsn d := n))"
    using contract_Exec [OF c e [unfolded r2]] by (cases "writes q") simp_all
  moreover have "reg w3 = reg w2" by (rule contract_StmtClose [OF c cl])
  ultimately show ?thesis by (cases "writes q") (simp_all add: w)
qed

lemma contract_all_ok:
  assumes c: "engine_contract E reg writes"
  shows "all_ok E d qs s = Some s' \<Longrightarrow> \<forall>q \<in> set qs. writes q = None \<Longrightarrow> reg (world s') = reg (world s)"
proof (induction qs arbitrary: s)
  case Nil
  then show ?case by simp
next
  case (Cons q qs)
  obtain r1 s1 where ex: "ExecSqlStatement E d q s = (r1, s1)"
    by (cases "ExecSqlStatement E d q s")
  with Cons.prems(1) have "r1 = None \<and> all_ok E d qs s1 = Some s'"
    by (cases r1) simp_all
  then have r1: "r1 = None" and rest: "all_ok E d qs s1 = Some s'"
    by simp_all
  from contract_ExecSqlStatement [OF c ex [unfolded r1]] Cons.prems(2)
  have "reg (world s1) = reg (world s)" by simp
  moreover from Cons.IH [OF rest] Cons.prems(2) have "reg (world s') = reg (world s1)" by simp
  ultimately show ?case by simp
qed

text \<open>
  What a run of \<^verbatim>\<open>InitAppDB\<close> that creates the file leaves in the register, when no
  statement fails and no statement of the caller writes the register: the fingerprint
  for a schema version below 128, and 0 from 128 on.
\<close>

lemma init_register:
  assumes c: "engine_contract E reg writes"
    and w3: "\<forall>q \<in> set schema. writes q = None"
    and fresh: "IsNotExist (err_of (fst (os_Stat E p (world s))))"
    and init: "InitAppDB E p a v schema s = ((Some d, None), s')"
    and ok: "statement_errors (new_events s s') = []"
  shows "reg (world s') p = (if v < 128 then getUserVersion a v else 0) \<and>
         prepared (new_events s s') =
           Sprintf_user_version (getUserVersion a v) # ''PRAGMA foreign_keys = ON;'' # schema"
proof -
  let ?ss = "Sprintf_user_version (getUserVersion a v) # ''PRAGMA foreign_keys = ON;'' # schema"
  have w1: "writes (Sprintf_user_version (getUserVersion a v)) =
              Some (if v < 128 then getUserVersion a v else 0)"
    by (simp only: contract_pragma [OF c] getUserVersion_sign)
  have w2: "writes ''PRAGMA foreign_keys = ON;'' = None"
    by (rule contract_foreign_keys [OF c])
  from InitAppDB_creation [OF fresh init] obtain s4 s5 T4 where
    t4: "trace s4 = trace s @ T4" "prepared T4 = []" "statement_errors T4 = []"
    and o: "openAppDBNoValidate E p s4 = ((Some d, None), s5)"
    and s': "s' = snd (initSchema E d a v schema s5)"
    by blast
  from openAppDBNoValidate_Some [OF o] obtain i where
    d: "d = DB i p" and t5: "trace s5 = trace s4 @ [(Stat p, None), (SqlOpen ''sqlite3'' p, None)]"
    by blast
  obtain r where loop: "schema_loop E d ?ss s5 = (r, s')"
    using s' by (cases "schema_loop E d ?ss s5") (simp add: initSchema_def schema_statements_def)
  from schema_loop_spec [OF loop] obtain T where
    T: "trace s' = trace s5 @ T"
    and alt: "r = None \<and> all_ok E d ?ss s5 = Some s' \<and> prepared T = ?ss \<and> statement_errors T = [] \<or>
           (\<exists>pre q post e s1. ?ss = pre @ q # post \<and> all_ok E d pre s5 = Some s1 \<and>
              ExecSqlStatement E d q s1 = (Some e, s') \<and> r = Some (SchemaError q e) \<and>
              prepared T = pre @ [q] \<and> statement_errors T = [e])"
    by blast
  have ne: "new_events s s' = T4 @ [(Stat p, None), (SqlOpen ''sqlite3'' p, None)] @ T"
    by (rule new_events_append) (simp add: T t5 t4)
  from ok have noerr: "statement_errors T = []"
    by (simp add: ne statement_errors_append)
  with alt have all: "all_ok E d ?ss s5 = Some s'" and prep: "prepared T = ?ss"
    by auto
  obtain ra sa where e1: "ExecSqlStatement E d (Sprintf_user_version (getUserVersion a v)) s5 = (ra, sa)"
    by (cases "ExecSqlStatement E d (Sprintf_user_version (getUserVersion a v)) s5")
  with all have "ra = None \<and> all_ok E d (''PRAGMA foreign_keys = ON;'' # schema) sa = Some s'"
    by (cases ra) simp_all
  then have ra: "ra = None" and all2: "all_ok E d (''PRAGMA foreign_keys = ON;'' # schema) sa = Some s'"
    by simp_all
  have "reg (world sa) = (reg (world s5))(p := (if v < 128 then getUserVersion a v else 0))"
    using contract_ExecSqlStatement [OF c e1 [unfolded ra]] d by (simp add: w1)
  moreover have "reg (world s') = reg (world sa)"
    by (rule contract_all_ok [OF c all2]) (use w2 w3 in simp)
  ultimately have "reg (world s') p = (if v < 128 then getUserVersion a v else 0)" by simp
  moreover have "prepared (new_events s s') = ?ss"
    by (simp add: ne prepared_append t4 prep)
  ultimately show ?thesis by blast
qed

lemma contract_validateDB:
  assumes c: "engine_contract E reg writes"
  shows "reg (world (snd (validateDB E h a v t))) = reg (world t)"
proof -
  obtain r w where sc: "row_Scan E h ''PRAGMA user_version'' (world t) = (r, w)"
    by (cases "row_Scan E h ''PRAGMA user_version'' (world t)")
  have "world (snd (validateDB E h a v t)) = w"
    by (cases r) (simp_all add: validateDB_def call_defs sc Let_def)
  with contract_Scan [OF c sc] show ?thesis by simp
qed

lemma contract_openAppDBNoValidate:
  assumes c: "engine_contract E reg writes"
  shows "reg (world (snd (openAppDBNoValidate E p t))) = reg (world t)"
proof -
  obtain r w where st: "os_Stat E p (world t) = (r, w)" by (cases "os_Stat E p (world t)")
  obtain r2 w2 where op: "sql_Open E ''sqlite3'' p w = (r2, w2)" by (cases "sql_Open E ''sqlite3'' p w")
  have "world (snd (openAppDBNoValidate E p t)) = w \<or> world (snd (openAppDBNoValidate E p t)) = w2"
    by (cases r; cases r2) (simp_all add: openAppDBNoValidate_def call_defs st op)
  with contract_Stat [OF c st] contract_Open [OF c op] show ?thesis by auto
qed

lemma contract_OpenAppDB:
  assumes c: "engine_contract E reg writes"
  shows "reg (world (snd (OpenAppDB E p a v t))) = reg (world t)"
proof -
  obtain ho eo s1 where o: "openAppDBNoValidate E p t = ((ho, eo), s1)"
    by (cases "openAppDBNoValidate E p t") auto
  have r1: "reg (world s1) = reg (world t)"
    using contract_openAppDBNoValidate [OF c, of p t] by (simp add: o)
  show ?thesis
  proof (cases "eo = None \<and> ho \<noteq> None")
    case False
    then have "world (snd (OpenAppDB E p a v t)) = world s1"
      by (cases eo; cases ho) (simp_all add: OpenAppDB_def o)
    with r1 show ?thesis by simp
  next
    case True
    then obtain d where ho: "ho = Some d" and eo: "eo = None" by auto
    obtain r2 s2 where va: "validateDB E d a v s1 = (r2, s2)" by (cases "validateDB E d a v s1")
    have r2: "reg (world s2) = reg (world s1)"
      using contract_validateDB [OF c, of d a v s1] by (simp add: va)
    obtain r3 w3 where cl: "db_Close E d (world s2) = (r3, w3)" by (cases "db_Close E d (world s2)")
    have "world (snd (OpenAppDB E p a v t)) = world s2 \<or> world (snd (OpenAppDB E p a v t)) = w3"
      by (cases r2) (simp_all add: OpenAppDB_def o ho eo va call_defs cl)
    with contract_DbClose [OF c cl] r1 r2 show ?thesis by auto
  qed
qed

subsection \<open>Running the package on the reference environment\<close>

text \<open>
  The digest of FIPS 180-4's one-block test message, and the digest of the application
  name used in the examples below.
\<close>

lemma Sum256_abc:
  "Sum256 (bytes ''abc'') =
     [0xba, 0x78, 0x16, 0xbf, 0x8f, 0x01, 0xcf, 0xea, 0x41, 0x41, 0x40, 0xde, 0x5d, 0xae, 0x22, 0x23,
      0xb0, 0x03, 0x61, 0xa3, 0x96, 0x17, 0x7a, 0x9c, 0xb4, 0x10, 0xff, 0x61, 0xf2, 0x00, 0x15, 0xad]"
  by code_simp

lemma digest_app:
  "Sum256 (bytes ''app'') =
     [0xa1, 0x72, 0xce, 0xdc, 0xae, 0x47, 0x47, 0x4b, 0x61, 0x5c, 0x54, 0xd5, 0x10, 0xa5, 0xd8, 0x4a,
      0x8d, 0xea, 0x30, 0x32, 0xe9, 0x58, 0x58, 0x74, 0x30, 0xb4, 0x13, 0x53, 0x8b, 0xe3, 0xf3, 0x33]"
  by code_simp

lemma fingerprint_app: "getUserVersion ''app'' v = LittleEndian_Uint32 [161, 114, 206, v]"
  by (simp add: getUserVersion_le digest_app)

lemma fingerprint_app_3: "getUserVersion ''app'' 3 = 63861409"
  by (simp add: fingerprint_app LittleEndian_Uint32_def)

lemma fingerprint_app_4: "getUserVersion ''app'' 4 = 80638625"
  by (simp add: fingerprint_app LittleEndian_Uint32_def)

lemma fingerprint_app_127: "getUserVersion ''app'' 127 = 2144236193"
  by (simp add: fingerprint_app LittleEndian_Uint32_def)

lemma fingerprint_app_200: "getUserVersion ''app'' 200 = 3368972961"
  by (simp add: fingerprint_app LittleEndian_Uint32_def)

lemma pragma_app_3: "Sprintf_user_version 63861409 = ''PRAGMA user_version = 63861409 ;''"
  by (simp add: Sprintf_user_version_def decimal.simps)

lemma pragma_app_127: "Sprintf_user_version 2144236193 = ''PRAGMA user_version = 2144236193 ;''"
  by (simp add: Sprintf_user_version_def decimal.simps)

lemma pragma_app_200: "Sprintf_user_version 3368972961 = ''PRAGMA user_version = 3368972961 ;''"
  by (simp add: Sprintf_user_version_def decimal.simps)

lemmas sim_defs = sim_env_def sim_Stat_def sim_MkdirAll_def sim_Create_def sim_Open_def sim_Prepare_def
  sim_Exec_def sim_Scan_def sim_Dir_def Clean_def sim_parse_def int32_literal_def parse_decimal_def
  sim_empty_def start_def

lemmas pkg_defs = InitAppDB_def OpenAppDB_def openAppDBNoValidate_def validateDB_def
  ExecSqlStatement_def ExecBulkSql_def initSchema_def schema_statements_def IsNotExist_def
  IsRegular_def ModeDir_0700_def new_events_def

lemmas run_simps = pkg_defs call_defs sim_defs sim_writes_def fingerprint_app_3 fingerprint_app_4
  fingerprint_app_127 fingerprint_app_200 pragma_app_3 pragma_app_127 pragma_app_200
  sim_created_def Let_def

lemma sim_contract: "engine_contract sim_env registers sim_writes"
proof -
  have pragma: "\<forall>n. sim_writes (''PRAGMA user_version = '' @ decimal n @ '' ;'') =
      Some (if n < 2 ^ 31 then of_nat n else 0)"
    unfolding sim_writes_def sim_parse_pragma by simp
  have fk: "sim_writes ''PRAGMA foreign_keys = ON;'' = None"
    by (simp add: sim_writes_def sim_parse_def)
  have frames: "(\<forall>p w. registers (snd (os_Stat sim_env p w)) = registers w) \<and>
     (\<forall>driver p w. registers (snd (sql_Open sim_env driver p w)) = registers w) \<and>
     (\<forall>d q w. registers (snd (db_Prepare sim_env d q w)) = registers w) \<and>
     (\<forall>st w. registers (snd (stmt_Close sim_env st w)) = registers w) \<and>
     (\<forall>d w. registers (snd (db_Close sim_env d w)) = registers w) \<and>
     (\<forall>d q w. registers (snd (row_Scan sim_env d q w)) = registers w)"
    by (auto simp add: sim_env_def sim_Stat_def sim_Open_def sim_Prepare_def sim_Scan_def
        split: option.splits sum.splits)
  have exec: "\<forall>st args w w'. stmt_Exec sim_env st args w = (None, w') \<longrightarrow>
        registers w' = (case sim_writes (stmt_query st) of
                    None \<Rightarrow> registers w
                  | Some n \<Rightarrow> (registers w)(db_dsn (stmt_db st) := n))"
    by (auto simp add: sim_env_def sim_Exec_def sim_writes_def Let_def
        split: sum.splits sim_stmt.splits if_splits)
  have scan: "(\<forall>d w. unat (registers w (db_dsn d)) < 2 ^ 31 \<longrightarrow>
        fst (row_Scan sim_env d ''PRAGMA user_version'' w) = Inr (registers w (db_dsn d))) \<and>
     (\<forall>d w. 2 ^ 31 \<le> unat (registers w (db_dsn d)) \<longrightarrow>
        (\<exists>e. fst (row_Scan sim_env d ''PRAGMA user_version'' w) = Inl e))"
    by (simp add: sim_env_def sim_Scan_def)
  from pragma fk frames exec scan show ?thesis
    unfolding engine_contract_def by blast
qed

text \<open>
  From schema version 128 on the round trip fails with no statement of the caller:
  for version 200 \<^verbatim>\<open>InitAppDB\<close> returns the handle, no statement fails, the register
  is 0, and \<^verbatim>\<open>OpenAppDB\<close> reports a foreign application.
\<close>

lemma round_trip_fails_at_200:
  "fst (InitAppDB sim_env ''data/app.db'' ''app'' 200 [] (start sim_empty)) =
     (Some (DB 1 ''data/app.db''), None) \<and>
   statement_errors (trace (snd (InitAppDB sim_env ''data/app.db'' ''app'' 200 []
     (start sim_empty)))) = [] \<and>
   registers (world (snd (InitAppDB sim_env ''data/app.db'' ''app'' 200 []
     (start sim_empty)))) ''data/app.db'' = 0 \<and>
   fst (OpenAppDB sim_env ''data/app.db'' ''app'' 200
     (snd (InitAppDB sim_env ''data/app.db'' ''app'' 200 [] (start sim_empty)))) =
     (None, Some (AppIdError 0 13529761))"
  by (simp add: run_simps)

text \<open>
  A register whose 32 bits are those of the fingerprint for version 200, written by a
  statement of the caller as the negative number they denote: the scan into a
  \<^verbatim>\<open>uint32\<close> fails, and \<^verbatim>\<open>OpenAppDB\<close> returns its error.
\<close>

lemma open_negative_register:
  "registers (world (snd (InitAppDB sim_env ''data/app.db'' ''app'' 200
     [''PRAGMA user_version = -925994335 ;''] (start sim_empty)))) ''data/app.db'' =
     getUserVersion ''app'' 200 \<and>
   fst (OpenAppDB sim_env ''data/app.db'' ''app'' 200
     (snd (InitAppDB sim_env ''data/app.db'' ''app'' 200
        [''PRAGMA user_version = -925994335 ;''] (start sim_empty)))) =
     (None, Some (DriverError 2))"
  by (simp add: run_simps)

section \<open>The claims\<close>

subsection \<open>C1: errors of schema initialization\<close>

text \<open>
  C1 says that no failure is swallowed, and in particular that \<^verbatim>\<open>InitAppDB\<close> returns
  the failure of \<^verbatim>\<open>initSchema\<close> when it has created the file. The code calls
  \<^verbatim>\<open>initSchema\<close> without reading its result. On the empty disk, with the schema
  \<^verbatim>\<open>["INVALID SQL;"]\<close>, the engine rejects the third statement: \<^verbatim>\<open>initSchema\<close>,
  from the run in which \<^verbatim>\<open>InitAppDB\<close> calls it, returns the \<^verbatim>\<open>SchemaError\<close> for that
  statement; \<^verbatim>\<open>InitAppDB\<close> returns the handle with a nil error and the run that
  \<^verbatim>\<open>initSchema\<close> left, whose last call is the failed Prepare.
\<close>

theorem InitAppDB_drops_schema_error:
  "fst (initSchema sim_env (DB 1 ''data/app.db'') ''app'' 3 [''INVALID SQL;'']
         (sim_created ''data/app.db'')) =
     Some (SchemaError ''INVALID SQL;'' (DriverError 1)) \<and>
   InitAppDB sim_env ''data/app.db'' ''app'' 3 [''INVALID SQL;''] (start sim_empty) =
     ((Some (DB 1 ''data/app.db''), None),
      snd (initSchema sim_env (DB 1 ''data/app.db'') ''app'' 3 [''INVALID SQL;'']
             (sim_created ''data/app.db''))) \<and>
   last (trace (snd (InitAppDB sim_env ''data/app.db'' ''app'' 3 [''INVALID SQL;'']
     (start sim_empty)))) = (Prepare (DB 1 ''data/app.db'') ''INVALID SQL;'', Some (DriverError 1))"
  by (simp add: run_simps sim_created_def)

subsection \<open>C2: the fingerprint\<close>

text \<open>
  C2: for every application name and every schema version, \<^verbatim>\<open>getUserVersion\<close> is the
  little-endian 32 bit integer of the first three bytes of the SHA-256 digest of the
  name's bytes followed by the schema version: byte 0 of the result is digest byte 0,
  byte 1 is digest byte 1, byte 2 is digest byte 2 and byte 3 (bits 24 to 31) is the
  schema version. The digest has 32 bytes, so the three indices are in range. The
  function is a total function of its two arguments: it has no error and no state.
\<close>

theorem getUserVersion_layout:
  "length (Sum256 (bytes appName)) = 32 \<and>
   getUserVersion appName schemaVersion =
     LittleEndian_Uint32 [Sum256 (bytes appName) ! 0, Sum256 (bytes appName) ! 1,
                          Sum256 (bytes appName) ! 2, schemaVersion] \<and>
   ucast (getUserVersion appName schemaVersion) = Sum256 (bytes appName) ! 0 \<and>
   ucast (drop_bit 8 (getUserVersion appName schemaVersion)) = Sum256 (bytes appName) ! 1 \<and>
   ucast (drop_bit 16 (getUserVersion appName schemaVersion)) = Sum256 (bytes appName) ! 2 \<and>
   ucast (drop_bit 24 (getUserVersion appName schemaVersion)) = schemaVersion \<and>
   unat (getUserVersion appName schemaVersion) =
     unat (Sum256 (bytes appName) ! 0) + 256 * unat (Sum256 (bytes appName) ! 1)
       + 65536 * unat (Sum256 (bytes appName) ! 2) + 16777216 * unat schemaVersion"
proof -
  let ?d = "Sum256 (bytes appName)"
  let ?uv = "getUserVersion appName schemaVersion"
  have le: "?uv = LittleEndian_Uint32 [?d ! 0, ?d ! 1, ?d ! 2, schemaVersion]"
    by (rule getUserVersion_le)
  have b0: "ucast ?uv = ?d ! 0" by (simp only: le le32_byte0)
  have b1: "ucast (drop_bit 8 ?uv) = ?d ! 1" by (simp only: le le32_byte1)
  have b2: "ucast (drop_bit 16 ?uv) = ?d ! 2" by (simp only: le le32_byte2)
  have b3: "ucast (drop_bit 24 ?uv) = schemaVersion" by (simp only: le le32_byte3)
  have n: "unat ?uv = unat (?d ! 0) + 256 * unat (?d ! 1) + 65536 * unat (?d ! 2)
             + 16777216 * unat schemaVersion"
    using unat_bytes [of ?uv] by (simp only: b0 b1 b2 b3)
  from length_Sum256 le b0 b1 b2 b3 n show ?thesis by blast
qed

text \<open>
  For the name \<^verbatim>\<open>app\<close> and version 3 the fingerprint is 63861409, that is 0x03CE72A1.
\<close>

theorem getUserVersion_layout_witness:
  "getUserVersion ''app'' 3 = 63861409 \<and>
   unat (getUserVersion ''app'' 3) = 161 + 256 * 114 + 65536 * 206 + 16777216 * 3 \<and>
   (ucast (drop_bit 24 (getUserVersion ''app'' 3)) :: u8) = 3"
  using getUserVersion_layout [of "''app''" 3]
  by (simp add: digest_app LittleEndian_Uint32_def)

subsection \<open>C3: which mismatch is reported\<close>

text \<open>
  C3: when the scan of the register returns a value that differs from the expected
  fingerprint, \<^verbatim>\<open>validateDB\<close> returns one error: an \<^verbatim>\<open>AppIdError\<close> with the low 24 bits
  of the stored and of the expected value when these differ, and otherwise a
  \<^verbatim>\<open>SchemaVersionError\<close> with the high byte of the stored value and the expected schema
  version. In particular a register that holds the fingerprint of version 3 of an
  application, validated for version 4 of the same application, gives
  \<^verbatim>\<open>SchemaVersionError{3, 4}\<close>.
\<close>

theorem validateDB_reports:
  assumes "row_Scan E d ''PRAGMA user_version'' (world s) = (Inr stored, w)"
  shows "(stored \<noteq> getUserVersion appName schemaVersion \<longrightarrow>
           fst (validateDB E d appName schemaVersion s) =
             Some (if stored AND 0x00ffffff \<noteq> getUserVersion appName schemaVersion AND 0x00ffffff
                   then AppIdError (stored AND 0x00ffffff)
                          (getUserVersion appName schemaVersion AND 0x00ffffff)
                   else SchemaVersionError (ucast (drop_bit 24 stored)) schemaVersion)) \<and>
         stored AND 0x00ffffff = take_bit 24 stored \<and>
         (stored = getUserVersion appName 3 \<longrightarrow>
           fst (validateDB E d appName 4 s) = Some (SchemaVersionError 3 4))"
proof (intro conjI impI)
  assume "stored \<noteq> getUserVersion appName schemaVersion"
  then show "fst (validateDB E d appName schemaVersion s) =
             Some (if stored AND 0x00ffffff \<noteq> getUserVersion appName schemaVersion AND 0x00ffffff
                   then AppIdError (stored AND 0x00ffffff)
                          (getUserVersion appName schemaVersion AND 0x00ffffff)
                   else SchemaVersionError (ucast (drop_bit 24 stored)) schemaVersion)"
    by (simp add: validateDB_scanned [OF assms] getUserVersion_version)
next
  show "stored AND 0x00ffffff = take_bit 24 stored"
    by (simp add: mask24 take_bit_eq_mask)
next
  assume st: "stored = getUserVersion appName 3"
  have "(ucast (drop_bit 24 (getUserVersion appName 3)) :: u8) \<noteq> ucast (drop_bit 24 (getUserVersion appName 4))"
    by (simp only: getUserVersion_version) simp
  then have ne: "getUserVersion appName 3 \<noteq> getUserVersion appName 4" by auto
  show "fst (validateDB E d appName 4 s) = Some (SchemaVersionError 3 4)"
    using ne getUserVersion_id [of appName 3 4]
    by (simp add: validateDB_scanned [OF assms] st getUserVersion_version)
qed

text \<open>
  A database initialized for \<^verbatim>\<open>app\<close>, version 3, and validated for version 4; and a
  new file, whose register is 0, validated for \<^verbatim>\<open>app\<close>, version 3.
\<close>

theorem validateDB_reports_witness:
  "row_Scan sim_env (DB 4 ''data/app.db'') ''PRAGMA user_version''
     (world (snd (openAppDBNoValidate sim_env ''data/app.db''
        (snd (InitAppDB sim_env ''data/app.db'' ''app'' 3 [] (start sim_empty)))))) =
     (Inr (getUserVersion ''app'' 3),
      world (snd (openAppDBNoValidate sim_env ''data/app.db''
        (snd (InitAppDB sim_env ''data/app.db'' ''app'' 3 [] (start sim_empty)))))) \<and>
   fst (validateDB sim_env (DB 4 ''data/app.db'') ''app'' 4
     (snd (openAppDBNoValidate sim_env ''data/app.db''
        (snd (InitAppDB sim_env ''data/app.db'' ''app'' 3 [] (start sim_empty)))))) =
     Some (SchemaVersionError 3 4) \<and>
   row_Scan sim_env (DB 1 ''other.db'') ''PRAGMA user_version''
     (world (start (snd (sim_Create ''other.db'' sim_empty)))) =
     (Inr 0, world (start (snd (sim_Create ''other.db'' sim_empty)))) \<and>
   fst (validateDB sim_env (DB 1 ''other.db'') ''app'' 3
     (start (snd (sim_Create ''other.db'' sim_empty)))) = Some (AppIdError 0 13529761)"
proof -
  let ?s1 = "snd (openAppDBNoValidate sim_env ''data/app.db''
        (snd (InitAppDB sim_env ''data/app.db'' ''app'' 3 [] (start sim_empty))))"
  let ?s2 = "start (snd (sim_Create ''other.db'' sim_empty))"
  have h1: "row_Scan sim_env (DB 4 ''data/app.db'') ''PRAGMA user_version'' (world ?s1) =
              (Inr (getUserVersion ''app'' 3), world ?s1)"
    by (simp add: run_simps)
  have h2: "row_Scan sim_env (DB 1 ''other.db'') ''PRAGMA user_version'' (world ?s2) =
              (Inr 0, world ?s2)"
    by (simp add: run_simps)
  have ne: "(0::u32) \<noteq> getUserVersion ''app'' 3" by (simp add: fingerprint_app_3)
  have "fst (validateDB sim_env (DB 4 ''data/app.db'') ''app'' 4 ?s1) = Some (SchemaVersionError 3 4)"
    using validateDB_reports [OF h1, of "''app''" 4] by simp
  moreover have "fst (validateDB sim_env (DB 1 ''other.db'') ''app'' 3 ?s2) =
      Some (AppIdError 0 13529761)"
    using validateDB_reports [OF h2, of "''app''" 3] ne by (simp add: fingerprint_app_3)
  ultimately show ?thesis using h1 h2 by simp
qed

subsection \<open>C4: the handle is closed when validation fails\<close>

text \<open>
  C4: when \<^verbatim>\<open>OpenAppDB\<close> has opened the file and validation fails, it returns no
  handle and the validation error, and the last call of the run, after the scan of
  the register, is the Close of the handle that this call opened.
\<close>

theorem OpenAppDB_closes_on_validation_failure:
  assumes "openAppDBNoValidate E dbPath s = ((Some d, None), s1)"
    and "validateDB E d appName schemaVersion s1 = (Some err, s2)"
  shows "fst (OpenAppDB E dbPath appName schemaVersion s) = (None, Some err) \<and>
         trace (snd (OpenAppDB E dbPath appName schemaVersion s)) =
           trace s2 @ [(DbClose d, fst (db_Close E d (world s2)))] \<and>
         world (snd (OpenAppDB E dbPath appName schemaVersion s)) = snd (db_Close E d (world s2)) \<and>
         map fst (new_events s s2) =
           [Stat dbPath, SqlOpen ''sqlite3'' dbPath, QueryRowScan d ''PRAGMA user_version''] \<and>
         db_dsn d = dbPath"
proof -
  from openAppDBNoValidate_Some [OF assms(1)] obtain w1 i where
    o: "d = DB i dbPath" "trace s1 = trace s @ [(Stat dbPath, None), (SqlOpen ''sqlite3'' dbPath, None)]"
    by blast
  have v: "\<exists>r. trace s2 = trace s1 @ [(QueryRowScan d ''PRAGMA user_version'', r)]"
    using assms(2)
    by (auto simp add: validateDB_def call_defs Let_def split: prod.splits sum.splits if_splits)
  then obtain r where "trace s2 = trace s @ [(Stat dbPath, None), (SqlOpen ''sqlite3'' dbPath, None),
      (QueryRowScan d ''PRAGMA user_version'', r)]"
    using o(2) by auto
  then have ev: "map fst (new_events s s2) =
           [Stat dbPath, SqlOpen ''sqlite3'' dbPath, QueryRowScan d ''PRAGMA user_version'']"
    by (simp add: new_events_def)
  have "fst (OpenAppDB E dbPath appName schemaVersion s) = (None, Some err) \<and>
         trace (snd (OpenAppDB E dbPath appName schemaVersion s)) =
           trace s2 @ [(DbClose d, fst (db_Close E d (world s2)))] \<and>
         world (snd (OpenAppDB E dbPath appName schemaVersion s)) = snd (db_Close E d (world s2))"
    by (simp add: OpenAppDB_def assms call_DbClose_def step_def split: prod.splits)
  moreover have "db_dsn d = dbPath" using o(1) by simp
  ultimately show ?thesis using ev by blast
qed

text \<open>
  A new file, whose register is 0, opened for \<^verbatim>\<open>app\<close>, version 3.
\<close>

theorem OpenAppDB_closes_on_validation_failure_witness:
  "fst (OpenAppDB sim_env ''other.db'' ''app'' 3 (start (snd (sim_Create ''other.db'' sim_empty)))) =
     (None, Some (AppIdError 0 13529761)) \<and>
   trace (snd (OpenAppDB sim_env ''other.db'' ''app'' 3
     (start (snd (sim_Create ''other.db'' sim_empty))))) =
     [(Stat ''other.db'', None), (SqlOpen ''sqlite3'' ''other.db'', None),
      (QueryRowScan (DB 1 ''other.db'') ''PRAGMA user_version'', None),
      (DbClose (DB 1 ''other.db''), None)]"
proof -
  let ?s = "start (snd (sim_Create ''other.db'' sim_empty))"
  let ?s1 = "snd (openAppDBNoValidate sim_env ''other.db'' ?s)"
  let ?s2 = "snd (validateDB sim_env (DB 1 ''other.db'') ''app'' 3 ?s1)"
  have h1: "openAppDBNoValidate sim_env ''other.db'' ?s = ((Some (DB 1 ''other.db''), None), ?s1)"
    by (simp add: run_simps)
  have h2: "validateDB sim_env (DB 1 ''other.db'') ''app'' 3 ?s1 =
              (Some (AppIdError 0 13529761), ?s2)"
    by (simp add: run_simps)
  have t2: "trace ?s2 = [(Stat ''other.db'', None), (SqlOpen ''sqlite3'' ''other.db'', None),
      (QueryRowScan (DB 1 ''other.db'') ''PRAGMA user_version'', None)]"
    by (simp add: run_simps)
  have c: "fst (db_Close sim_env (DB 1 ''other.db'') (world ?s2)) = None"
    by (simp add: sim_env_def)
  from OpenAppDB_closes_on_validation_failure [OF h1 h2] show ?thesis
    unfolding t2 c by simp
qed

subsection \<open>C5: schema initialization\<close>

text \<open>
  C5 says that the first statement \<^verbatim>\<open>initSchema\<close> runs sets the version register to
  the fingerprint. The statement is \<^verbatim>\<open>PRAGMA user_version = N ;\<close> with \<open>N\<close> the
  fingerprint as \<^verbatim>\<open>%d\<close> prints a \<^verbatim>\<open>uint32\<close>, without a sign; the register of SQLite
  is a signed integer of 32 bits, and the engine stores 0 for an \<open>N\<close> above 2147483647.
  The schema version is the top byte of the fingerprint, so this is every schema
  version from 128 on. For the application \<^verbatim>\<open>app\<close> and the version 200, on a new file
  and with no statement of the caller: \<^verbatim>\<open>initSchema\<close> returns nil, the two statements
  prepared are the pragma with the fingerprint 3368972961 and the foreign-keys pragma,
  and the register holds 0. The order of the statements, the stop at the first
  statement that fails and the \<^verbatim>\<open>SchemaError\<close> are as C5 says, for every engine
  (lemma \<open>initSchema_runs\<close>).
\<close>

theorem initSchema_register_not_set:
  "fst (initSchema sim_env (DB 1 ''data/app.db'') ''app'' 200 [] (sim_created ''data/app.db'')) = None \<and>
   prepared (new_events (sim_created ''data/app.db'')
     (snd (initSchema sim_env (DB 1 ''data/app.db'') ''app'' 200 []
        (sim_created ''data/app.db'')))) =
     [''PRAGMA user_version = 3368972961 ;'', ''PRAGMA foreign_keys = ON;''] \<and>
   registers (world (snd (initSchema sim_env (DB 1 ''data/app.db'') ''app'' 200 []
        (sim_created ''data/app.db'')))) ''data/app.db'' = 0 \<and>
   getUserVersion ''app'' 200 = 3368972961"
  by (simp add: run_simps)

subsection \<open>C6: the register after initialization\<close>

text \<open>
  C6 says that the register of every database this package has created and
  initialized holds the fingerprint, and that no later operation of the package
  writes it. The package passes the caller's statements to the engine as they are:
  with the schema \<^verbatim>\<open>["PRAGMA user_version = 0 ;"]\<close> every statement succeeds,
  \<^verbatim>\<open>InitAppDB\<close> returns the handle, and the register is 0.
\<close>

theorem register_overwritten_by_schema:
  "fst (InitAppDB sim_env ''data/app.db'' ''app'' 3 [''PRAGMA user_version = 0 ;'']
         (start sim_empty)) = (Some (DB 1 ''data/app.db''), None) \<and>
   statement_errors (trace (snd (InitAppDB sim_env ''data/app.db'' ''app'' 3
         [''PRAGMA user_version = 0 ;''] (start sim_empty)))) = [] \<and>
   registers (world (snd (InitAppDB sim_env ''data/app.db'' ''app'' 3
         [''PRAGMA user_version = 0 ;''] (start sim_empty)))) ''data/app.db'' = 0 \<and>
   getUserVersion ''app'' 3 = 63861409"
  by (simp add: run_simps)

text \<open>
  C6, amended: for a schema version below 128 and a schema none of whose statements
  writes the register, on an engine that keeps to the contract, if \<^verbatim>\<open>InitAppDB\<close> has
  created the file and no statement of the run failed, the register holds the
  fingerprint, and the statements prepared are the register's pragma first, the
  foreign-keys pragma, and the caller's. \<^verbatim>\<open>OpenAppDB\<close> and \<^verbatim>\<open>validateDB\<close> leave every
  register as it is, and \<^verbatim>\<open>validateDB\<close> makes one call, the scan of
  \<^verbatim>\<open>PRAGMA user_version\<close>. \<^verbatim>\<open>ExecSqlStatement\<close> and \<^verbatim>\<open>ExecBulkSql\<close> prepare the caller's
  statement and no other, and a statement run with \<^verbatim>\<open>ExecSqlStatement\<close> changes the
  register only as the statement itself says. Nothing is said of a schema version
  from 128 on (C5) or of a run in which a statement failed (C1).
\<close>

theorem register_holds_fingerprint:
  assumes "engine_contract E reg writes"
    and "\<forall>q \<in> set schema. writes q = None"
    and "schemaVersion < 128"
    and "IsNotExist (err_of (fst (os_Stat E dbPath (world s))))"
    and "InitAppDB E dbPath appName schemaVersion schema s = ((Some d, None), s')"
    and "statement_errors (new_events s s') = []"
  shows "reg (world s') dbPath = getUserVersion appName schemaVersion \<and>
         prepared (new_events s s') =
           Sprintf_user_version (getUserVersion appName schemaVersion) #
             ''PRAGMA foreign_keys = ON;'' # schema \<and>
         (\<forall>p a v t. reg (world (snd (OpenAppDB E p a v t))) = reg (world t)) \<and>
         (\<forall>h a v t. reg (world (snd (validateDB E h a v t))) = reg (world t)) \<and>
         (\<forall>h a v t. map fst (new_events t (snd (validateDB E h a v t))) =
                       [QueryRowScan h ''PRAGMA user_version'']) \<and>
         (\<forall>h q t. prepared (new_events t (snd (ExecSqlStatement E h q t))) = [q]) \<and>
         (\<forall>h q vs t. prepared (new_events t (snd (ExecBulkSql E h q vs t))) = [q]) \<and>
         (\<forall>h q t t'. ExecSqlStatement E h q t = (None, t') \<longrightarrow>
            reg (world t') = (case writes q of None \<Rightarrow> reg (world t)
                              | Some n \<Rightarrow> (reg (world t))(db_dsn h := n)))"
proof (intro conjI allI impI)
  note ir = init_register [OF assms(1,2,4,5,6)]
  show "reg (world s') dbPath = getUserVersion appName schemaVersion"
    using ir assms(3) by simp
  show "prepared (new_events s s') =
           Sprintf_user_version (getUserVersion appName schemaVersion) #
             ''PRAGMA foreign_keys = ON;'' # schema"
    using ir by (rule conjunct2)
  show "reg (world (snd (OpenAppDB E p a v t))) = reg (world t)" for p a v t
    by (rule contract_OpenAppDB [OF assms(1)])
  show "reg (world (snd (validateDB E h a v t))) = reg (world t)" for h a v t
    by (rule contract_validateDB [OF assms(1)])
  show "map fst (new_events t (snd (validateDB E h a v t))) =
                       [QueryRowScan h ''PRAGMA user_version'']" for h a v t
    by (simp add: validateDB_def call_defs Let_def new_events_def split: prod.splits sum.splits)
  show "prepared (new_events t (snd (ExecSqlStatement E h q t))) = [q]" for h q t
    by (rule ExecSqlStatement_prepared)
  show "prepared (new_events t (snd (ExecBulkSql E h q vs t))) = [q]" for h q vs t
    by (rule ExecBulkSql_prepared)
  show "reg (world t') = (case writes q of None \<Rightarrow> reg (world t)
                              | Some n \<Rightarrow> (reg (world t))(db_dsn h := n))"
    if "ExecSqlStatement E h q t = (None, t')" for h q t t'
    using that by (rule contract_ExecSqlStatement [OF assms(1)])
qed

text \<open>
  The reference engine, with the largest schema version below 128 and the schema
  \<^verbatim>\<open>["CREATE TABLE t(x);"]\<close>.
\<close>

theorem register_holds_fingerprint_witness:
  "InitAppDB sim_env ''data/app.db'' ''app'' 127 [''CREATE TABLE t(x);''] (start sim_empty) =
     ((Some (DB 1 ''data/app.db''), None),
      snd (InitAppDB sim_env ''data/app.db'' ''app'' 127 [''CREATE TABLE t(x);''] (start sim_empty))) \<and>
   statement_errors (new_events (start sim_empty)
     (snd (InitAppDB sim_env ''data/app.db'' ''app'' 127 [''CREATE TABLE t(x);''] (start sim_empty)))) = [] \<and>
   registers (world (snd (InitAppDB sim_env ''data/app.db'' ''app'' 127 [''CREATE TABLE t(x);'']
     (start sim_empty)))) ''data/app.db'' = 2144236193 \<and>
   prepared (new_events (start sim_empty)
     (snd (InitAppDB sim_env ''data/app.db'' ''app'' 127 [''CREATE TABLE t(x);''] (start sim_empty)))) =
     [''PRAGMA user_version = 2144236193 ;'', ''PRAGMA foreign_keys = ON;'', ''CREATE TABLE t(x);'']"
proof -
  let ?s = "start sim_empty"
  let ?s' = "snd (InitAppDB sim_env ''data/app.db'' ''app'' 127 [''CREATE TABLE t(x);''] (start sim_empty))"
  have h2: "\<forall>q \<in> set [''CREATE TABLE t(x);'']. sim_writes q = None"
    by (simp add: run_simps)
  have h3: "(127 :: u8) < 128"
    by simp
  have h4: "IsNotExist (err_of (fst (os_Stat sim_env ''data/app.db'' (world ?s))))"
    by (simp add: run_simps)
  have h5: "InitAppDB sim_env ''data/app.db'' ''app'' 127 [''CREATE TABLE t(x);''] ?s =
              ((Some (DB 1 ''data/app.db''), None), ?s')"
    by (simp add: run_simps)
  have h6: "statement_errors (new_events ?s ?s') = []"
    by (simp add: run_simps)
  from register_holds_fingerprint [OF sim_contract h2 h3 h4 h5 h6]
  have "registers (world ?s') ''data/app.db'' = getUserVersion ''app'' 127"
    and "prepared (new_events ?s ?s') =
           Sprintf_user_version (getUserVersion ''app'' 127) # ''PRAGMA foreign_keys = ON;'' #
             [''CREATE TABLE t(x);'']"
    by blast+
  then have "registers (world ?s') ''data/app.db'' = 2144236193"
    and "prepared (new_events ?s ?s') =
      [''PRAGMA user_version = 2144236193 ;'', ''PRAGMA foreign_keys = ON;'', ''CREATE TABLE t(x);'']"
    by (simp_all only: fingerprint_app_127 pragma_app_127)
  with h5 h6 show ?thesis by blast
qed

subsection \<open>C7: initialize, then open\<close>




subsection \<open>C8: a path that is not a regular file\<close>

text \<open>
  C8: when Stat finds something that is not a regular file, \<^verbatim>\<open>openAppDBNoValidate\<close>
  and \<^verbatim>\<open>OpenAppDB\<close> return no handle and \<^verbatim>\<open>os.ErrInvalid\<close>; when Stat fails they
  return no handle and the error of Stat. In both cases Stat is the only call made:
  the engine is not reached.
\<close>

theorem open_refuses_non_regular:
  "(\<forall>k w. os_Stat E dbPath (world s) = (Inr k, w) \<and> k \<noteq> Regular \<longrightarrow>
      fst (openAppDBNoValidate E dbPath s) = (None, Some ErrInvalid) \<and>
      fst (OpenAppDB E dbPath appName schemaVersion s) = (None, Some ErrInvalid) \<and>
      new_events s (snd (openAppDBNoValidate E dbPath s)) = [(Stat dbPath, None)] \<and>
      new_events s (snd (OpenAppDB E dbPath appName schemaVersion s)) = [(Stat dbPath, None)]) \<and>
   (\<forall>err w. os_Stat E dbPath (world s) = (Inl err, w) \<longrightarrow>
      fst (openAppDBNoValidate E dbPath s) = (None, Some err) \<and>
      fst (OpenAppDB E dbPath appName schemaVersion s) = (None, Some err) \<and>
      new_events s (snd (openAppDBNoValidate E dbPath s)) = [(Stat dbPath, Some err)] \<and>
      new_events s (snd (OpenAppDB E dbPath appName schemaVersion s)) = [(Stat dbPath, Some err)])"
  by (simp add: OpenAppDB_def openAppDBNoValidate_def call_defs IsRegular_def new_events_def)

text \<open>
  A directory, and a path with nothing at it.
\<close>

theorem open_refuses_non_regular_witness:
  "fst (OpenAppDB sim_env ''data'' ''app'' 3
         (start (snd (sim_MkdirAll ''data'' ModeDir_0700 sim_empty)))) = (None, Some ErrInvalid) \<and>
   fst (openAppDBNoValidate sim_env ''data''
         (start (snd (sim_MkdirAll ''data'' ModeDir_0700 sim_empty)))) = (None, Some ErrInvalid) \<and>
   trace (snd (OpenAppDB sim_env ''data'' ''app'' 3
         (start (snd (sim_MkdirAll ''data'' ModeDir_0700 sim_empty))))) = [(Stat ''data'', None)] \<and>
   fst (OpenAppDB sim_env ''data/app.db'' ''app'' 3
         (start (snd (sim_MkdirAll ''data'' ModeDir_0700 sim_empty)))) = (None, Some ErrNotExist)"
proof -
  let ?s = "start (snd (sim_MkdirAll ''data'' ModeDir_0700 sim_empty))"
  have d: "os_Stat sim_env ''data'' (world ?s) = (Inr Directory, world ?s) \<and> Directory \<noteq> Regular"
    by (simp add: run_simps)
  have m: "os_Stat sim_env ''data/app.db'' (world ?s) = (Inl ErrNotExist, world ?s)"
    by (simp add: run_simps)
  have t: "trace ?s = []" by (simp add: start_def)
  from open_refuses_non_regular [of sim_env "''data''" ?s "''app''" 3] d
  have a: "fst (openAppDBNoValidate sim_env ''data'' ?s) = (None, Some ErrInvalid) \<and>
      fst (OpenAppDB sim_env ''data'' ''app'' 3 ?s) = (None, Some ErrInvalid) \<and>
      new_events ?s (snd (openAppDBNoValidate sim_env ''data'' ?s)) = [(Stat ''data'', None)] \<and>
      new_events ?s (snd (OpenAppDB sim_env ''data'' ''app'' 3 ?s)) = [(Stat ''data'', None)]"
    by blast
  from open_refuses_non_regular [of sim_env "''data/app.db''" ?s "''app''" 3] m
  have b: "fst (OpenAppDB sim_env ''data/app.db'' ''app'' 3 ?s) = (None, Some ErrNotExist)"
    by blast
  from a b show ?thesis by (simp add: new_events_def t)
qed

subsection \<open>C9: bulk execution\<close>

text \<open>
  C9: when Prepare fails, \<^verbatim>\<open>ExecBulkSql\<close> returns its error and makes no other call.
  Otherwise the calls are one Prepare, then one Exec of the prepared statement for
  each of the first \<open>k\<close> values, in their order, then the Close of the statement.
  Every Exec but the last returned nil; the result is nil exactly when all of them
  did, and then \<open>k\<close> is the number of values; otherwise the result is the error of the
  last Exec. For no value at all the calls are Prepare and Close, and the result is
  nil.
\<close>

theorem ExecBulkSql_spec:
  "(\<forall>e w. db_Prepare E d q (world s) = (Inl e, w) \<longrightarrow>
      fst (ExecBulkSql E d q vs s) = Some e \<and>
      new_events s (snd (ExecBulkSql E d q vs s)) = [(Prepare d q, Some e)]) \<and>
   (\<forall>i w. db_Prepare E d q (world s) = (Inr i, w) \<longrightarrow>
      (\<exists>k X c. k \<le> length vs \<and>
         new_events s (snd (ExecBulkSql E d q vs s)) =
           (Prepare d q, None) # X @ [(StmtClose (Stmt i d q), c)] \<and>
         map fst X = map (\<lambda>v. Exec (Stmt i d q) [v]) (take k vs) \<and>
         map snd X = (case fst (ExecBulkSql E d q vs s) of
                        None \<Rightarrow> replicate k None
                      | Some e \<Rightarrow> replicate (k - 1) None @ [Some e]) \<and>
         (fst (ExecBulkSql E d q vs s) = None \<longrightarrow> k = length vs) \<and>
         (fst (ExecBulkSql E d q vs s) \<noteq> None \<longrightarrow> 0 < k)) \<and>
      (vs = [] \<longrightarrow> fst (ExecBulkSql E d q vs s) = None \<and>
         map fst (new_events s (snd (ExecBulkSql E d q vs s))) =
           [Prepare d q, StmtClose (Stmt i d q)]))"
proof (intro conjI allI impI)
  fix e w assume "db_Prepare E d q (world s) = (Inl e, w)"
  then show "fst (ExecBulkSql E d q vs s) = Some e"
    and "new_events s (snd (ExecBulkSql E d q vs s)) = [(Prepare d q, Some e)]"
    by (simp_all add: ExecBulkSql_def call_defs new_events_def)
next
  fix i w assume prep: "db_Prepare E d q (world s) = (Inr i, w)"
  define s1 where "s1 = step (Prepare d q) None w s"
  have cp: "call_Prepare E d q s = (Inr (Stmt i d q), s1)"
    using prep by (simp add: call_Prepare_def s1_def)
  obtain r s2 where loop: "bulk_loop E (Stmt i d q) vs s1 = (r, s2)"
    by (cases "bulk_loop E (Stmt i d q) vs s1")
  obtain c s3 where cl: "call_StmtClose E (Stmt i d q) s2 = (c, s3)"
    by (cases "call_StmtClose E (Stmt i d q) s2")
  have res: "ExecBulkSql E d q vs s = (r, s3)"
    by (simp add: ExecBulkSql_def cp loop cl)
  from bulk_loop_spec [OF loop] obtain X k where
    X: "trace s2 = trace s1 @ X" "k \<le> length vs"
       "map fst X = map (\<lambda>v. Exec (Stmt i d q) [v]) (take k vs)"
       "map snd X = (case r of None \<Rightarrow> replicate k None
                        | Some e \<Rightarrow> replicate (k - 1) None @ [Some e])"
       "r = None \<longrightarrow> k = length vs" "r \<noteq> None \<longrightarrow> 0 < k"
    by blast
  have t3: "trace s3 = trace s2 @ [(StmtClose (Stmt i d q), c)]"
    using cl by (auto simp add: call_defs split: prod.splits)
  have t1: "trace s1 = trace s @ [(Prepare d q, None)]"
    by (simp add: s1_def step_def)
  have ev: "new_events s s3 = (Prepare d q, None) # X @ [(StmtClose (Stmt i d q), c)]"
    by (rule new_events_append) (simp add: t3 X(1) t1)
  show "\<exists>k X c. k \<le> length vs \<and>
         new_events s (snd (ExecBulkSql E d q vs s)) =
           (Prepare d q, None) # X @ [(StmtClose (Stmt i d q), c)] \<and>
         map fst X = map (\<lambda>v. Exec (Stmt i d q) [v]) (take k vs) \<and>
         map snd X = (case fst (ExecBulkSql E d q vs s) of
                        None \<Rightarrow> replicate k None
                      | Some e \<Rightarrow> replicate (k - 1) None @ [Some e]) \<and>
         (fst (ExecBulkSql E d q vs s) = None \<longrightarrow> k = length vs) \<and>
         (fst (ExecBulkSql E d q vs s) \<noteq> None \<longrightarrow> 0 < k)"
    using X ev unfolding res fst_conv snd_conv by blast
  {
    assume empty: "vs = []"
    with loop have "r = None" by simp
    moreover from empty X(2,3) have "X = []" by simp
    ultimately show "fst (ExecBulkSql E d q vs s) = None"
      and "map fst (new_events s (snd (ExecBulkSql E d q vs s))) =
           [Prepare d q, StmtClose (Stmt i d q)]"
      using ev by (simp_all add: res)
  }
qed

text \<open>
  No value; and four values of which the third is a duplicate.
\<close>

theorem ExecBulkSql_spec_witness:
  "db_Prepare sim_env (DB 1 ''data/app.db'') ''INSERT INTO t VALUES (?)''
     (world (snd (InitAppDB sim_env ''data/app.db'' ''app'' 3 [''CREATE TABLE t(x UNIQUE);'']
        (start sim_empty)))) =
     (Inr 5, snd (db_Prepare sim_env (DB 1 ''data/app.db'') ''INSERT INTO t VALUES (?)''
        (world (snd (InitAppDB sim_env ''data/app.db'' ''app'' 3 [''CREATE TABLE t(x UNIQUE);'']
           (start sim_empty)))))) \<and>
   fst (ExecBulkSql sim_env (DB 1 ''data/app.db'') ''INSERT INTO t VALUES (?)'' []
     (snd (InitAppDB sim_env ''data/app.db'' ''app'' 3 [''CREATE TABLE t(x UNIQUE);'']
        (start sim_empty)))) = None \<and>
   map fst (new_events
     (snd (InitAppDB sim_env ''data/app.db'' ''app'' 3 [''CREATE TABLE t(x UNIQUE);''] (start sim_empty)))
     (snd (ExecBulkSql sim_env (DB 1 ''data/app.db'') ''INSERT INTO t VALUES (?)'' []
        (snd (InitAppDB sim_env ''data/app.db'' ''app'' 3 [''CREATE TABLE t(x UNIQUE);'']
           (start sim_empty)))))) =
     [Prepare (DB 1 ''data/app.db'') ''INSERT INTO t VALUES (?)'',
      StmtClose (Stmt 5 (DB 1 ''data/app.db'') ''INSERT INTO t VALUES (?)'')] \<and>
   fst (ExecBulkSql sim_env (DB 1 ''data/app.db'') ''INSERT INTO t VALUES (?)''
     [''a'', ''b'', ''a'', ''c'']
     (snd (InitAppDB sim_env ''data/app.db'' ''app'' 3 [''CREATE TABLE t(x UNIQUE);'']
        (start sim_empty)))) = Some (DriverError 19) \<and>
   new_events
     (snd (InitAppDB sim_env ''data/app.db'' ''app'' 3 [''CREATE TABLE t(x UNIQUE);''] (start sim_empty)))
     (snd (ExecBulkSql sim_env (DB 1 ''data/app.db'') ''INSERT INTO t VALUES (?)''
        [''a'', ''b'', ''a'', ''c'']
        (snd (InitAppDB sim_env ''data/app.db'' ''app'' 3 [''CREATE TABLE t(x UNIQUE);'']
           (start sim_empty))))) =
     [(Prepare (DB 1 ''data/app.db'') ''INSERT INTO t VALUES (?)'', None),
      (Exec (Stmt 5 (DB 1 ''data/app.db'') ''INSERT INTO t VALUES (?)'') [''a''], None),
      (Exec (Stmt 5 (DB 1 ''data/app.db'') ''INSERT INTO t VALUES (?)'') [''b''], None),
      (Exec (Stmt 5 (DB 1 ''data/app.db'') ''INSERT INTO t VALUES (?)'') [''a''],
       Some (DriverError 19)),
      (StmtClose (Stmt 5 (DB 1 ''data/app.db'') ''INSERT INTO t VALUES (?)''), None)]"
proof -
  let ?s = "snd (InitAppDB sim_env ''data/app.db'' ''app'' 3 [''CREATE TABLE t(x UNIQUE);'']
        (start sim_empty))"
  let ?d = "DB 1 ''data/app.db''"
  let ?q = "''INSERT INTO t VALUES (?)''"
  have p: "db_Prepare sim_env ?d ?q (world ?s) = (Inr 5, snd (db_Prepare sim_env ?d ?q (world ?s)))"
    by (simp add: run_simps)
  from ExecBulkSql_spec [of sim_env ?d ?q ?s "[]"] p
  have e: "fst (ExecBulkSql sim_env ?d ?q [] ?s) = None \<and>
         map fst (new_events ?s (snd (ExecBulkSql sim_env ?d ?q [] ?s))) =
           [Prepare ?d ?q, StmtClose (Stmt 5 ?d ?q)]"
    by blast
  have r: "fst (ExecBulkSql sim_env ?d ?q [''a'', ''b'', ''a'', ''c''] ?s) = Some (DriverError 19)"
    by (simp add: run_simps)
  have t: "new_events ?s (snd (ExecBulkSql sim_env ?d ?q [''a'', ''b'', ''a'', ''c''] ?s)) =
     [(Prepare ?d ?q, None), (Exec (Stmt 5 ?d ?q) [''a''], None),
      (Exec (Stmt 5 ?d ?q) [''b''], None), (Exec (Stmt 5 ?d ?q) [''a''], Some (DriverError 19)),
      (StmtClose (Stmt 5 ?d ?q), None)]"
    by (simp add: run_simps)
  from p e r t show ?thesis by blast
qed

subsection \<open>C10: validation succeeds exactly on the expected fingerprint\<close>

text \<open>
  C10 says that \<^verbatim>\<open>validateDB\<close> returns nil exactly when the stored value is the
  expected fingerprint. \<^verbatim>\<open>validateDB\<close> returns the error of the scan before it looks
  at any value: a database initialized for \<^verbatim>\<open>app\<close>, version 3, whose register holds
  the fingerprint, and which is locked when it is validated for \<^verbatim>\<open>app\<close>, version 3,
  gives the error of the engine.
\<close>

theorem validateDB_returns_scan_error:
  "registers (world (snd (openAppDBNoValidate sim_env ''data/app.db''
        (snd (InitAppDB sim_env ''data/app.db'' ''app'' 3 [] (start sim_empty))))))
     ''data/app.db'' = getUserVersion ''app'' 3 \<and>
   fst (validateDB sim_busy (DB 4 ''data/app.db'') ''app'' 3
     (snd (openAppDBNoValidate sim_env ''data/app.db''
        (snd (InitAppDB sim_env ''data/app.db'' ''app'' 3 [] (start sim_empty)))))) =
     Some (DriverError 5)"
  by (simp add: run_simps sim_busy_def)

text \<open>
  C10, amended: when the scan returns a value, \<^verbatim>\<open>validateDB\<close> returns nil if and only
  if that value is the expected fingerprint; two values that differ differ in their low
  24 bits or in their high byte, so on a mismatch the result is an \<^verbatim>\<open>AppIdError\<close> or a
  \<^verbatim>\<open>SchemaVersionError\<close>, and not both. When the scan fails, \<^verbatim>\<open>validateDB\<close> returns the
  error of the scan.
\<close>

theorem validateDB_nil_iff_match:
  "(\<forall>stored w. row_Scan E d ''PRAGMA user_version'' (world s) = (Inr stored, w) \<longrightarrow>
      (fst (validateDB E d appName schemaVersion s) = None \<longleftrightarrow>
         stored = getUserVersion appName schemaVersion) \<and>
      (stored \<noteq> getUserVersion appName schemaVersion \<longrightarrow>
         stored AND 0x00ffffff \<noteq> getUserVersion appName schemaVersion AND 0x00ffffff \<or>
         (ucast (drop_bit 24 stored) :: u8) \<noteq> ucast (drop_bit 24 (getUserVersion appName schemaVersion))) \<and>
      (stored \<noteq> getUserVersion appName schemaVersion \<longrightarrow>
         (\<exists>i j. fst (validateDB E d appName schemaVersion s) = Some (AppIdError i j)) \<noteq>
         (\<exists>x y. fst (validateDB E d appName schemaVersion s) = Some (SchemaVersionError x y)))) \<and>
   (\<forall>e w. row_Scan E d ''PRAGMA user_version'' (world s) = (Inl e, w) \<longrightarrow>
      fst (validateDB E d appName schemaVersion s) = Some e)"
proof (intro conjI allI impI)
  fix stored w
  assume sc: "row_Scan E d ''PRAGMA user_version'' (world s) = (Inr stored, w)"
  show "fst (validateDB E d appName schemaVersion s) = None \<longleftrightarrow>
            stored = getUserVersion appName schemaVersion"
    by (simp add: validateDB_scanned [OF sc])
  show "stored AND 0x00ffffff \<noteq> getUserVersion appName schemaVersion AND 0x00ffffff \<or>
            (ucast (drop_bit 24 stored) :: u8) \<noteq> ucast (drop_bit 24 (getUserVersion appName schemaVersion))"
    if "stored \<noteq> getUserVersion appName schemaVersion"
    using that fields_determine [of stored "getUserVersion appName schemaVersion"] by blast
  show "(\<exists>i j. fst (validateDB E d appName schemaVersion s) = Some (AppIdError i j)) \<noteq>
            (\<exists>x y. fst (validateDB E d appName schemaVersion s) = Some (SchemaVersionError x y))"
    if "stored \<noteq> getUserVersion appName schemaVersion"
    using that by (simp add: validateDB_scanned [OF sc])
next
  fix e w
  assume "row_Scan E d ''PRAGMA user_version'' (world s) = (Inl e, w)"
  then show "fst (validateDB E d appName schemaVersion s) = Some e"
    by (simp add: validateDB_def call_QueryRowScan_def Let_def)
qed

text \<open>
  A database initialized for \<^verbatim>\<open>app\<close>, version 3, validated for versions 3 and 4, and
  validated for version 3 while it is locked.
\<close>

theorem validateDB_nil_iff_match_witness:
  "row_Scan sim_env (DB 4 ''data/app.db'') ''PRAGMA user_version''
     (world (snd (openAppDBNoValidate sim_env ''data/app.db''
        (snd (InitAppDB sim_env ''data/app.db'' ''app'' 3 [] (start sim_empty)))))) =
     (Inr 63861409,
      world (snd (openAppDBNoValidate sim_env ''data/app.db''
        (snd (InitAppDB sim_env ''data/app.db'' ''app'' 3 [] (start sim_empty)))))) \<and>
   fst (validateDB sim_env (DB 4 ''data/app.db'') ''app'' 3
     (snd (openAppDBNoValidate sim_env ''data/app.db''
        (snd (InitAppDB sim_env ''data/app.db'' ''app'' 3 [] (start sim_empty)))))) = None \<and>
   fst (validateDB sim_env (DB 4 ''data/app.db'') ''app'' 4
     (snd (openAppDBNoValidate sim_env ''data/app.db''
        (snd (InitAppDB sim_env ''data/app.db'' ''app'' 3 [] (start sim_empty)))))) \<noteq> None \<and>
   row_Scan sim_busy (DB 4 ''data/app.db'') ''PRAGMA user_version''
     (world (snd (openAppDBNoValidate sim_env ''data/app.db''
        (snd (InitAppDB sim_env ''data/app.db'' ''app'' 3 [] (start sim_empty)))))) =
     (Inl (DriverError 5),
      world (snd (openAppDBNoValidate sim_env ''data/app.db''
        (snd (InitAppDB sim_env ''data/app.db'' ''app'' 3 [] (start sim_empty)))))) \<and>
   fst (validateDB sim_busy (DB 4 ''data/app.db'') ''app'' 3
     (snd (openAppDBNoValidate sim_env ''data/app.db''
        (snd (InitAppDB sim_env ''data/app.db'' ''app'' 3 [] (start sim_empty)))))) =
     Some (DriverError 5)"
proof -
  let ?s1 = "snd (openAppDBNoValidate sim_env ''data/app.db''
        (snd (InitAppDB sim_env ''data/app.db'' ''app'' 3 [] (start sim_empty))))"
  have h1: "row_Scan sim_env (DB 4 ''data/app.db'') ''PRAGMA user_version'' (world ?s1) =
              (Inr 63861409, world ?s1)"
    by (simp add: run_simps)
  have h2: "row_Scan sim_busy (DB 4 ''data/app.db'') ''PRAGMA user_version'' (world ?s1) =
              (Inl (DriverError 5), world ?s1)"
    by (simp add: sim_busy_def)
  have "fst (validateDB sim_env (DB 4 ''data/app.db'') ''app'' 3 ?s1) = None"
    using validateDB_nil_iff_match [of sim_env "DB 4 ''data/app.db''" ?s1 "''app''" 3] h1
    by (simp add: fingerprint_app_3)
  moreover have "fst (validateDB sim_env (DB 4 ''data/app.db'') ''app'' 4 ?s1) \<noteq> None"
    using validateDB_nil_iff_match [of sim_env "DB 4 ''data/app.db''" ?s1 "''app''" 4] h1
    by (simp add: fingerprint_app_4)
  moreover have "fst (validateDB sim_busy (DB 4 ''data/app.db'') ''app'' 3 ?s1) = Some (DriverError 5)"
    using validateDB_nil_iff_match [of sim_busy "DB 4 ''data/app.db''" ?s1 "''app''" 3] h2
    by blast
  ultimately show ?thesis using h1 h2 by simp
qed

end
